theory Spec2Isabelle
  imports Main "HOL-Library.Word"
begin

unbundle bit_operations_syntax

section \<open>The CANopenNode driver for the STM32 CubeMX HAL (CO_driver.c)\<close>

text \<open>
  A shallow embedding of \<^verbatim>\<open>Code/Lib/bsp/CANOpenNode/STM32HAL/CO_driver.c\<close>.
  The driver's structs are records, its fixed arrays are lists, a pointer that may be
  \<^verbatim>\<open>NULL\<close> is an \<open>option\<close>, and a pointer into an array is the index of the element.
  Every function takes the module it works on and returns it updated. The calls the driver
  makes into its two collaborators are made explicit:
  \<^item> what a HAL call returns is an argument of the model function (the free mailbox level,
    the status of \<^verbatim>\<open>HAL_CAN_AddTxMessage\<close>, the peripheral's \<^verbatim>\<open>ErrorCode\<close>, ...);
  \<^item> the frames handed to \<^verbatim>\<open>HAL_CAN_AddTxMessage\<close>, the calls of \<^verbatim>\<open>CO_errorReport\<close> and
    \<^verbatim>\<open>CO_errorReset\<close>, and the receive handlers invoked are returned as lists, in call order.
  \<^verbatim>\<open>CO_LOCK_CAN_SEND\<close> and \<^verbatim>\<open>CO_UNLOCK_CAN_SEND\<close> delimit critical sections; every model
  function is one uninterrupted call, so its result is the state seen outside them.
\<close>

subsection \<open>Data model\<close>

text \<open>
  The structs are declared in \<^verbatim>\<open>CO_driver.h\<close> and in the HAL, outside the driver file. The
  fields have the widths of the CANopenNode driver interface, which are also those of the
  parameters and locals of the driver file they are assigned from or compared with
  (\<^verbatim>\<open>uint16_t rxSize\<close>, \<^verbatim>\<open>uint16_t txSize\<close>, \<^verbatim>\<open>uint16_t msg\<close>, \<^verbatim>\<open>uint8_t noOfBytes\<close>);
  \<^verbatim>\<open>CANtxCount\<close> is a 16-bit counter and the flags of type \<^verbatim>\<open>bool_t\<close> are booleans.
\<close>

type_synonym u8 = "8 word"
type_synonym u16 = "16 word"
type_synonym u32 = "32 word"

datatype CO_ReturnError_t =
    CO_ERROR_NO
  | CO_ERROR_ILLEGAL_ARGUMENT
  | CO_ERROR_TX_OVERFLOW
  | CO_ERROR_ILLEGAL_BAUDRATE
  | CO_ERROR_HAL

datatype HAL_StatusTypeDef = HAL_OK | HAL_ERROR | HAL_BUSY | HAL_TIMEOUT

text \<open>The error status bits and emergency error codes of \<^verbatim>\<open>CO_Emergency.h\<close> that the driver
  names, and the two calls it makes into the emergency object.\<close>

datatype CO_EM_errorStatusBits =
    CO_EM_CAN_BUS_WARNING
  | CO_EM_CAN_TX_BUS_PASSIVE
  | CO_EM_CAN_TX_BUS_OFF
  | CO_EM_CAN_RXB_OVERFLOW
  | CO_EM_CAN_TX_OVERFLOW
  | CO_EM_TPDO_OUTSIDE_WINDOW

datatype CO_EM_errorCode =
    CO_EMC_NO_ERROR
  | CO_EMC_COMMUNICATION
  | CO_EMC_CAN_OVERRUN
  | CO_EMC_CAN_PASSIVE
  | CO_EMC_BUS_OFF_RECOVERED

datatype em_call =
    CO_errorReport CO_EM_errorStatusBits CO_EM_errorCode u32
  | CO_errorReset CO_EM_errorStatusBits u32

text \<open>The receive header filled by \<^verbatim>\<open>HAL_CAN_GetRxMessage\<close>, the message object passed to a
  receive handler, and the transmit header filled by \<^verbatim>\<open>prepareTxHeader\<close> (the fields the
  driver reads or writes).\<close>

record CAN_RxHeaderTypeDef =
  rx_StdId :: u32
  rx_RTR :: u32
  rx_DLC :: u32

record CO_CANrxMsg_t =
  msg_ident :: u32
  msg_DLC :: u8
  msg_RxHeader :: CAN_RxHeaderTypeDef
  msg_data :: "u8 list"

record CAN_TxHeaderTypeDef =
  StdId :: u32
  ExtId :: u32
  RTR :: u32
  DLC :: u32

text \<open>A receive entry: the handler \<^verbatim>\<open>pFunct\<close> and its context \<^verbatim>\<open>object\<close> are pointers, kept as
  their addresses.\<close>

record CO_CANrx_t =
  rx_ident :: u16
  rx_mask :: u16
  rx_object :: "nat option"
  rx_pFunct :: "nat option"

record CO_CANtx_t =
  tx_ident :: u32
  tx_DLC :: u8
  tx_data :: "u8 list"
  bufferFull :: bool
  syncFlag :: bool

record CAN_HandleTypeDef =
  Prescaler :: u32

record CO_CANmodule_t =
  CANbaseAddress :: "CAN_HandleTypeDef option"
  rxArray :: "CO_CANrx_t list"
  rxSize :: u16
  txArray :: "CO_CANtx_t list"
  txSize :: u16
  CANnormal :: bool
  useCANrxFilters :: bool
  bufferInhibitFlag :: bool
  firstCANtxMessage :: bool
  CANtxCount :: u16
  errOld :: u32
  em :: "nat option"

text \<open>The entries the driver's loops visit: \<^verbatim>\<open>rxSize\<close> (\<^verbatim>\<open>txSize\<close>) elements from the start of
  the array. The loops walk a pointer over them; the model recurses over this list and puts
  the elements behind it back unchanged.\<close>

definition rx_slots :: "CO_CANmodule_t \<Rightarrow> CO_CANrx_t list" where
  "rx_slots m = take (unat (rxSize m)) (rxArray m)"

definition tx_slots :: "CO_CANmodule_t \<Rightarrow> CO_CANtx_t list" where
  "tx_slots m = take (unat (txSize m)) (txArray m)"

definition set_tx_slots :: "CO_CANtx_t list \<Rightarrow> CO_CANmodule_t \<Rightarrow> CO_CANmodule_t" where
  "set_tx_slots bufs m = m\<lparr>txArray := bufs @ drop (unat (txSize m)) (txArray m)\<rparr>"

subsection \<open>prepareTxHeader\<close>

definition prepareTxHeader :: "CO_CANtx_t \<Rightarrow> CAN_TxHeaderTypeDef" where
  "prepareTxHeader buffer =
     \<lparr>StdId = drop_bit 2 (tx_ident buffer),
      ExtId = 0,
      RTR = tx_ident buffer AND 2,
      DLC = ucast (tx_DLC buffer)\<rparr>"

subsection \<open>CO_CANsetNormalMode\<close>

text \<open>\<open>start\<close> is what \<^verbatim>\<open>HAL_CAN_Start\<close> returns and \<open>notification\<close> what
  \<^verbatim>\<open>HAL_CAN_ActivateNotification\<close> returns.\<close>

definition CO_CANsetNormalMode ::
  "HAL_StatusTypeDef \<Rightarrow> HAL_StatusTypeDef \<Rightarrow> CO_CANmodule_t \<Rightarrow> CO_ReturnError_t \<times> CO_CANmodule_t" where
  "CO_CANsetNormalMode start notification CANmodule =
     (let Error = CO_ERROR_NO;
          Error = (if start \<noteq> HAL_OK then CO_ERROR_HAL else Error);
          Error = (if notification \<noteq> HAL_OK then CO_ERROR_HAL else Error)
      in (Error, CANmodule\<lparr>CANnormal := True\<rparr>))"

subsection \<open>CO_CANmodule_init\<close>

text \<open>The \<^verbatim>\<open>switch\<close> over the bit rate: the prescaler of a supported rate, \<open>None\<close> for the
  \<^verbatim>\<open>default\<close> branch.\<close>

definition CANbitRate_Prescaler :: "u16 \<Rightarrow> u32 option" where
  "CANbitRate_Prescaler CANbitRate =
     (if CANbitRate = 1000 then Some 5
      else if CANbitRate = 500 then Some 10
      else if CANbitRate = 250 then Some 20
      else if CANbitRate = 125 then Some 40
      else if CANbitRate = 100 then Some 50
      else if CANbitRate = 50 then Some 100
      else if CANbitRate = 20 then Some 250
      else if CANbitRate = 10 then Some 500
      else None)"

text \<open>The function either returns an error code, leaving the module as the second component
  shows, or it writes through \<^verbatim>\<open>CANmodule->CANbaseAddress\<close> while that pointer is \<^verbatim>\<open>NULL\<close>
  (line 211, \<^verbatim>\<open>CANmodule->CANbaseAddress->Instance = CAN1\<close>), which has no defined result.
  \<open>hal_init\<close> is what \<^verbatim>\<open>HAL_CAN_Init\<close> returns. Of the handle's \<^verbatim>\<open>Init\<close> fields the model
  keeps the prescaler; the others receive constants of the HAL.\<close>

datatype init_result =
    Returned CO_ReturnError_t "CO_CANmodule_t option"
  | NULL_dereference

definition CO_CANmodule_init ::
  "HAL_StatusTypeDef \<Rightarrow> CO_CANmodule_t option \<Rightarrow> CAN_HandleTypeDef option \<Rightarrow>
   CO_CANrx_t list option \<Rightarrow> u16 \<Rightarrow> CO_CANtx_t list option \<Rightarrow> u16 \<Rightarrow> u16 \<Rightarrow> init_result" where
  "CO_CANmodule_init hal_init CANmodule HALCanObject rxArray' rxSize' txArray' txSize' CANbitRate =
     (case CANmodule of
        None \<Rightarrow> Returned CO_ERROR_ILLEGAL_ARGUMENT None
      | Some m \<Rightarrow>
          (case rxArray' of
             None \<Rightarrow> Returned CO_ERROR_ILLEGAL_ARGUMENT (Some m)
           | Some rx \<Rightarrow>
               (case txArray' of
                  None \<Rightarrow> Returned CO_ERROR_ILLEGAL_ARGUMENT (Some m)
                | Some tx \<Rightarrow>
                    (let m1 = m\<lparr>CANbaseAddress := HALCanObject,
                                 rxArray := map (\<lambda>b. b\<lparr>rx_ident := 0, rx_pFunct := None\<rparr>)
                                              (take (unat rxSize') rx) @ drop (unat rxSize') rx,
                                 rxSize := rxSize',
                                 txArray := map (\<lambda>b. b\<lparr>bufferFull := False\<rparr>)
                                              (take (unat txSize') tx) @ drop (unat txSize') tx,
                                 txSize := txSize',
                                 CANnormal := False,
                                 useCANrxFilters := False,
                                 bufferInhibitFlag := False,
                                 firstCANtxMessage := True,
                                 CANtxCount := 0,
                                 errOld := 0,
                                 em := None\<rparr>
                     in (case HALCanObject of
                           None \<Rightarrow> NULL_dereference
                         | Some h \<Rightarrow>
                             (case CANbitRate_Prescaler CANbitRate of
                                None \<Rightarrow> Returned CO_ERROR_ILLEGAL_BAUDRATE (Some m1)
                              | Some p \<Rightarrow>
                                  (let m2 = m1\<lparr>CANbaseAddress := Some (h\<lparr>Prescaler := p\<rparr>)\<rparr>
                                   in if hal_init \<noteq> HAL_OK then Returned CO_ERROR_HAL (Some m2)
                                      else Returned CO_ERROR_NO (Some m2))))))))"

subsection \<open>CO_CANrxBufferInit and CO_CANtxBufferInit\<close>

text \<open>\<open>configFilter\<close> is what \<^verbatim>\<open>HAL_CAN_ConfigFilter\<close> returns. \<^verbatim>\<open>(ident & 0x07FF) << 2\<close> is at most
  \<^verbatim>\<open>0x1FFC\<close>, so storing it in the 16-bit field loses nothing.\<close>

definition CO_CANrxBufferInit ::
  "HAL_StatusTypeDef \<Rightarrow> CO_CANmodule_t option \<Rightarrow> u16 \<Rightarrow> u16 \<Rightarrow> u16 \<Rightarrow> bool \<Rightarrow>
   nat option \<Rightarrow> nat option \<Rightarrow> CO_ReturnError_t \<times> CO_CANmodule_t option" where
  "CO_CANrxBufferInit configFilter CANmodule index ident mask' rtr object pFunct =
     (case CANmodule of
        None \<Rightarrow> (CO_ERROR_ILLEGAL_ARGUMENT, None)
      | Some m \<Rightarrow>
          if object \<noteq> None \<and> pFunct \<noteq> None \<and> index < rxSize m then
            (let buffer = rxArray m ! unat index;
                 buffer = buffer\<lparr>rx_object := object, rx_pFunct := pFunct\<rparr>;
                 buffer = buffer\<lparr>rx_ident := push_bit 2 (ident AND 0x07FF)\<rparr>;
                 buffer = (if rtr then buffer\<lparr>rx_ident := rx_ident buffer OR 0x02\<rparr> else buffer);
                 buffer = buffer\<lparr>rx_mask := push_bit 2 (mask' AND 0x07FF)\<rparr>;
                 buffer = buffer\<lparr>rx_mask := rx_mask buffer OR 0x02\<rparr>;
                 m' = m\<lparr>rxArray := (rxArray m)[unat index := buffer]\<rparr>
             in if useCANrxFilters m then (CO_ERROR_NO, Some m')
                else if configFilter \<noteq> HAL_OK then (CO_ERROR_HAL, Some m')
                else (CO_ERROR_NO, Some m'))
          else (CO_ERROR_ILLEGAL_ARGUMENT, Some m))"

text \<open>The returned pointer \<^verbatim>\<open>&CANmodule->txArray[index]\<close> is the index; \<open>None\<close> is \<^verbatim>\<open>NULL\<close>.
  \<^verbatim>\<open>ident << 2\<close> is computed on the promoted 16-bit argument and stored in the 32-bit field.\<close>

definition CO_CANtxBufferInit ::
  "CO_CANmodule_t option \<Rightarrow> u16 \<Rightarrow> u16 \<Rightarrow> bool \<Rightarrow> u8 \<Rightarrow> bool \<Rightarrow> nat option \<times> CO_CANmodule_t option" where
  "CO_CANtxBufferInit CANmodule index ident rtr noOfBytes syncFlag' =
     (case CANmodule of
        None \<Rightarrow> (None, None)
      | Some m \<Rightarrow>
          if index < txSize m then
            (let buffer = txArray m ! unat index;
                 buffer = buffer\<lparr>tx_ident := tx_ident buffer AND 0x7FF\<rparr>;
                 buffer = buffer\<lparr>tx_ident := push_bit 2 (ucast ident)\<rparr>;
                 buffer = (if rtr then buffer\<lparr>tx_ident := tx_ident buffer OR 0x02\<rparr> else buffer);
                 buffer = buffer\<lparr>tx_DLC := noOfBytes\<rparr>;
                 buffer = buffer\<lparr>bufferFull := False\<rparr>;
                 buffer = buffer\<lparr>syncFlag := syncFlag'\<rparr>
             in (Some (unat index), Some (m\<lparr>txArray := (txArray m)[unat index := buffer]\<rparr>)))
          else (None, Some m))"

subsection \<open>CO_CANsend\<close>

text \<open>\<open>buffer\<close> is the index of the transmit entry the caller passes. \<open>freeLevel\<close> is what
  \<^verbatim>\<open>HAL_CAN_GetTxMailboxesFreeLevel\<close> returns and \<open>addTx\<close> what \<^verbatim>\<open>HAL_CAN_AddTxMessage\<close>
  returns. The result holds the error code, the module, the calls made into the emergency
  object and the frames handed to the HAL.\<close>

definition CO_CANsend ::
  "u32 \<Rightarrow> HAL_StatusTypeDef \<Rightarrow> CO_CANmodule_t \<Rightarrow> nat \<Rightarrow>
   CO_ReturnError_t \<times> CO_CANmodule_t \<times> em_call list \<times> (CAN_TxHeaderTypeDef \<times> u8 list) list" where
  "CO_CANsend freeLevel addTx CANmodule buffer =
     (let b = txArray CANmodule ! buffer;
          err = CO_ERROR_NO;
          reports = (if bufferFull b \<and> \<not> firstCANtxMessage CANmodule
                     then [CO_errorReport CO_EM_CAN_TX_OVERFLOW CO_EMC_CAN_OVERRUN (tx_ident b)]
                     else []);
          err = (if bufferFull b then CO_ERROR_TX_OVERFLOW else err);
          TxHeader = prepareTxHeader b
      in if CANtxCount CANmodule = 0 \<and> freeLevel > 0 then
           (if addTx \<noteq> HAL_OK then CO_ERROR_HAL else err,
            CANmodule\<lparr>bufferInhibitFlag := syncFlag b\<rparr>,
            reports,
            [(TxHeader, tx_data b)])
         else
           (err,
            CANmodule\<lparr>txArray := (txArray CANmodule)[buffer := b\<lparr>bufferFull := True\<rparr>],
                       CANtxCount := CANtxCount CANmodule + 1\<rparr>,
            reports,
            []))"

subsection \<open>CO_CANclearPendingSyncPDOs\<close>

text \<open>The \<^verbatim>\<open>for\<close> loop over the transmit entries, with the running \<^verbatim>\<open>CANtxCount\<close> and
  \<^verbatim>\<open>tpdoDeleted\<close>.\<close>

fun clearSync_loop :: "CO_CANtx_t list \<Rightarrow> u16 \<Rightarrow> u32 \<Rightarrow> CO_CANtx_t list \<times> u16 \<times> u32" where
  "clearSync_loop [] cnt tpdoDeleted = ([], cnt, tpdoDeleted)"
| "clearSync_loop (buffer # rest) cnt tpdoDeleted =
     (if bufferFull buffer \<and> syncFlag buffer then
        (let (rest', cnt', del') = clearSync_loop rest (cnt - 1) 2
         in (buffer\<lparr>bufferFull := False\<rparr> # rest', cnt', del'))
      else
        (let (rest', cnt', del') = clearSync_loop rest cnt tpdoDeleted
         in (buffer # rest', cnt', del')))"

definition CO_CANclearPendingSyncPDOs :: "CO_CANmodule_t \<Rightarrow> CO_CANmodule_t \<times> em_call list" where
  "CO_CANclearPendingSyncPDOs CANmodule =
     (let tpdoDeleted = 0;
          (m1, tpdoDeleted) =
            (if bufferInhibitFlag CANmodule
             then (CANmodule\<lparr>bufferInhibitFlag := False\<rparr>, 1)
             else (CANmodule, tpdoDeleted));
          (m2, tpdoDeleted) =
            (if CANtxCount m1 \<noteq> 0 then
               (let (bufs, cnt, del) = clearSync_loop (tx_slots m1) (CANtxCount m1) tpdoDeleted
                in (set_tx_slots bufs (m1\<lparr>CANtxCount := cnt\<rparr>), del))
             else (m1, tpdoDeleted))
      in (m2,
          if tpdoDeleted \<noteq> 0
          then [CO_errorReport CO_EM_TPDO_OUTSIDE_WINDOW CO_EMC_COMMUNICATION tpdoDeleted]
          else []))"

subsection \<open>CO_CANverifyErrors\<close>

text \<open>The bits of the peripheral's error code are macros of the STM32 HAL
  (\<^verbatim>\<open>HAL_CAN_ERROR_NONE\<close>, ...), whose header is not part of the driver file; the model takes
  their values as a parameter. \<open>stm32_hal_can_error\<close> holds the values the CAN header of the
  STM32 HAL gives them, where "no error" is the value zero and not a bit.\<close>

record hal_can_error =
  HAL_CAN_ERROR_NONE :: u32
  HAL_CAN_ERROR_EWG :: u32
  HAL_CAN_ERROR_EPV :: u32
  HAL_CAN_ERROR_BOF :: u32
  HAL_CAN_ERROR_RX_FOV0 :: u32
  HAL_CAN_ERROR_RX_FOV1 :: u32

definition stm32_hal_can_error :: hal_can_error where
  "stm32_hal_can_error =
     \<lparr>HAL_CAN_ERROR_NONE = 0x00000000,
      HAL_CAN_ERROR_EWG = 0x00000001,
      HAL_CAN_ERROR_EPV = 0x00000002,
      HAL_CAN_ERROR_BOF = 0x00000004,
      HAL_CAN_ERROR_RX_FOV0 = 0x00000200,
      HAL_CAN_ERROR_RX_FOV1 = 0x00000400\<rparr>"

text \<open>\<open>HalCanErrorCode\<close> is the value read from \<^verbatim>\<open>CANmodule->CANbaseAddress->ErrorCode\<close> and
  \<open>isError\<close> what \<^verbatim>\<open>CO_isError(em, CO_EM_CAN_TX_BUS_PASSIVE)\<close> returns.\<close>

definition CO_CANverifyErrors ::
  "hal_can_error \<Rightarrow> bool \<Rightarrow> u32 \<Rightarrow> CO_CANmodule_t \<Rightarrow> CO_CANmodule_t \<times> em_call list" where
  "CO_CANverifyErrors hal isError HalCanErrorCode CANmodule =
     (if errOld CANmodule \<noteq> HalCanErrorCode then
        (CANmodule\<lparr>errOld := HalCanErrorCode\<rparr>,
         (if HalCanErrorCode AND HAL_CAN_ERROR_BOF hal \<noteq> 0 then
            [CO_errorReport CO_EM_CAN_TX_BUS_OFF CO_EMC_BUS_OFF_RECOVERED HalCanErrorCode]
          else
            [CO_errorReset CO_EM_CAN_TX_BUS_OFF HalCanErrorCode]
            @ (if HalCanErrorCode AND HAL_CAN_ERROR_EWG hal \<noteq> 0
               then [CO_errorReport CO_EM_CAN_BUS_WARNING CO_EMC_NO_ERROR HalCanErrorCode]
               else [])
            @ (if HalCanErrorCode AND HAL_CAN_ERROR_EPV hal \<noteq> 0 then
                 (if \<not> firstCANtxMessage CANmodule
                  then [CO_errorReport CO_EM_CAN_TX_BUS_PASSIVE CO_EMC_CAN_PASSIVE HalCanErrorCode]
                  else [])
               else
                 (if isError
                  then [CO_errorReset CO_EM_CAN_TX_BUS_PASSIVE HalCanErrorCode,
                        CO_errorReset CO_EM_CAN_TX_OVERFLOW HalCanErrorCode]
                  else []))
            @ (if HalCanErrorCode AND HAL_CAN_ERROR_NONE hal \<noteq> 0
               then [CO_errorReset CO_EM_CAN_BUS_WARNING HalCanErrorCode]
               else []))
         @ (if HalCanErrorCode AND HAL_CAN_ERROR_RX_FOV0 hal \<noteq> 0
               \<or> HalCanErrorCode AND HAL_CAN_ERROR_RX_FOV1 hal \<noteq> 0
            then [CO_errorReport CO_EM_CAN_RXB_OVERFLOW CO_EMC_CAN_OVERRUN HalCanErrorCode]
            else []))
      else (CANmodule, []))"

text \<open>Periodic supervision: one call per observed error code, the calls into the emergency
  object concatenated.\<close>

fun verifyErrors_calls ::
  "hal_can_error \<Rightarrow> (bool \<times> u32) list \<Rightarrow> CO_CANmodule_t \<Rightarrow> CO_CANmodule_t \<times> em_call list" where
  "verifyErrors_calls hal [] m = (m, [])"
| "verifyErrors_calls hal ((isError, code) # rest) m =
     (let (m1, calls1) = CO_CANverifyErrors hal isError code m;
          (m2, calls2) = verifyErrors_calls hal rest m1
      in (m2, calls1 @ calls2))"

subsection \<open>CO_CANinterrupt_Rx\<close>

text \<open>\<^verbatim>\<open>msg\<close>, the identifier and RTR of the received frame aligned with the receive entries.\<close>

definition rx_msg :: "CAN_RxHeaderTypeDef \<Rightarrow> u16" where
  "rx_msg RxHeader = ucast (push_bit 2 (rx_StdId RxHeader)) OR ucast (rx_RTR RxHeader)"

text \<open>The test \<^verbatim>\<open>((msg ^ MsgBuff->ident) & MsgBuff->mask) == 0\<close>; C computes it on the operands
  promoted to 32 bits.\<close>

definition rx_match :: "u16 \<Rightarrow> CO_CANrx_t \<Rightarrow> bool" where
  "rx_match msg MsgBuff \<longleftrightarrow>
     ((ucast msg XOR ucast (rx_ident MsgBuff)) AND ucast (rx_mask MsgBuff)) = (0 :: u32)"

text \<open>The search loop: the entry \<^verbatim>\<open>MsgBuff\<close> points to when the loop is left by \<^verbatim>\<open>break\<close>,
  \<open>None\<close> when it runs to the end (\<^verbatim>\<open>msgMatched\<close> stays false).\<close>

fun rx_search :: "u16 \<Rightarrow> CO_CANrx_t list \<Rightarrow> CO_CANrx_t option" where
  "rx_search msg [] = None"
| "rx_search msg (MsgBuff # rest) =
     (if rx_match msg MsgBuff then Some MsgBuff else rx_search msg rest)"

text \<open>A call \<^verbatim>\<open>pFunct(object, &CANmessage)\<close> of a receive handler.\<close>

datatype rx_call = pFunct_call nat "nat option" CO_CANrxMsg_t

text \<open>\<open>RxHeader\<close> and \<open>data\<close> are what \<^verbatim>\<open>HAL_CAN_GetRxMessage\<close> stored. The module is not
  changed; the result is the list of handler calls made.\<close>

definition CO_CANinterrupt_Rx :: "CAN_RxHeaderTypeDef \<Rightarrow> u8 list \<Rightarrow> CO_CANmodule_t \<Rightarrow> rx_call list" where
  "CO_CANinterrupt_Rx RxHeader data CANmodule =
     (let CANmessage = \<lparr>msg_ident = rx_StdId RxHeader,
                        msg_DLC = ucast (rx_DLC RxHeader),
                        msg_RxHeader = RxHeader,
                        msg_data = data\<rparr>
      in case rx_search (rx_msg RxHeader) (rx_slots CANmodule) of
           None \<Rightarrow> []
         | Some MsgBuff \<Rightarrow>
             (case rx_pFunct MsgBuff of
                None \<Rightarrow> []
              | Some f \<Rightarrow> [pFunct_call f (rx_object MsgBuff) CANmessage]))"

subsection \<open>CO_CANpolling_Tx\<close>

text \<open>The \<^verbatim>\<open>for\<close> loop over the transmit entries. The first component of the result tells
  whether the loop was left by \<^verbatim>\<open>break\<close> (\<^verbatim>\<open>i\<close> is then not zero); the others are the entries,
  \<^verbatim>\<open>bufferInhibitFlag\<close>, \<^verbatim>\<open>CANtxCount\<close> and the frames handed to the HAL.\<close>

fun polling_Tx_loop ::
  "HAL_StatusTypeDef \<Rightarrow> CO_CANtx_t list \<Rightarrow> bool \<Rightarrow> u16 \<Rightarrow>
   bool \<times> CO_CANtx_t list \<times> bool \<times> u16 \<times> (CAN_TxHeaderTypeDef \<times> u8 list) list" where
  "polling_Tx_loop addTx [] inhibit cnt = (False, [], inhibit, cnt, [])"
| "polling_Tx_loop addTx (buffer # rest) inhibit cnt =
     (if bufferFull buffer then
        (if addTx \<noteq> HAL_OK
         then (True, buffer # rest, syncFlag buffer, cnt,
               [(prepareTxHeader buffer, tx_data buffer)])
         else (True, buffer\<lparr>bufferFull := False\<rparr> # rest, syncFlag buffer, cnt - 1,
               [(prepareTxHeader buffer, tx_data buffer)]))
      else
        (let (found, rest', inhibit', cnt', sent) = polling_Tx_loop addTx rest inhibit cnt
         in (found, buffer # rest', inhibit', cnt', sent)))"

definition CO_CANpolling_Tx ::
  "u32 \<Rightarrow> HAL_StatusTypeDef \<Rightarrow> CO_CANmodule_t \<Rightarrow>
   CO_CANmodule_t \<times> (CAN_TxHeaderTypeDef \<times> u8 list) list" where
  "CO_CANpolling_Tx freeLevel addTx CANmodule =
     (if freeLevel > 0 then
        (let m1 = CANmodule\<lparr>firstCANtxMessage := False\<rparr>;
             m1 = m1\<lparr>bufferInhibitFlag := False\<rparr>
         in if CANtxCount m1 > 0 then
              (let (found, bufs, inhibit, cnt, sent) =
                     polling_Tx_loop addTx (tx_slots m1) (bufferInhibitFlag m1) (CANtxCount m1);
                   m2 = set_tx_slots bufs (m1\<lparr>bufferInhibitFlag := inhibit, CANtxCount := cnt\<rparr>)
               in (if \<not> found then m2\<lparr>CANtxCount := 0\<rparr> else m2, sent))
            else (m1, []))
      else (CANmodule, []))"

subsection \<open>Example states\<close>

text \<open>States at which the theorems below are instantiated: zeroed storage, and the module
  that \<^verbatim>\<open>CO_CANmodule_init\<close> makes of it with two receive and two transmit entries at
  125 kbit/s (see \<open>example_module_init\<close>).\<close>

definition zero_rx :: CO_CANrx_t where
  "zero_rx = \<lparr>rx_ident = 0, rx_mask = 0, rx_object = None, rx_pFunct = None\<rparr>"

definition zero_tx :: CO_CANtx_t where
  "zero_tx = \<lparr>tx_ident = 0, tx_DLC = 0, tx_data = [0, 0, 0, 0, 0, 0, 0, 0],
              bufferFull = False, syncFlag = False\<rparr>"

definition zero_module :: CO_CANmodule_t where
  "zero_module =
     \<lparr>CANbaseAddress = None, rxArray = [], rxSize = 0, txArray = [], txSize = 0,
      CANnormal = False, useCANrxFilters = False, bufferInhibitFlag = False,
      firstCANtxMessage = False, CANtxCount = 0, errOld = 0, em = None\<rparr>"

definition example_module :: CO_CANmodule_t where
  "example_module =
     \<lparr>CANbaseAddress = Some \<lparr>Prescaler = 40\<rparr>,
      rxArray = [zero_rx, zero_rx], rxSize = 2,
      txArray = [zero_tx, zero_tx], txSize = 2,
      CANnormal = False, useCANrxFilters = False, bufferInhibitFlag = False,
      firstCANtxMessage = True, CANtxCount = 0, errOld = 0, em = None\<rparr>"

definition rx_123 :: CO_CANrx_t where
  "rx_123 = \<lparr>rx_ident = 0x48C, rx_mask = 0x1FFE, rx_object = Some 100, rx_pFunct = Some 200\<rparr>"

definition rx_12x :: CO_CANrx_t where
  "rx_12x = \<lparr>rx_ident = 0x480, rx_mask = 0x1FC2, rx_object = Some 101, rx_pFunct = Some 201\<rparr>"

definition sync_tx :: CO_CANtx_t where
  "sync_tx = \<lparr>tx_ident = 0x604, tx_DLC = 8, tx_data = [0, 0, 0, 0, 0, 0, 0, 0],
              bufferFull = False, syncFlag = True\<rparr>"

text \<open>The example module with transmit entry 0 set up for a synchronous frame with identifier
  \<^verbatim>\<open>0x181\<close>; the same with that entry queued; and the queued state whose counter has
  wrapped around to zero (see \<open>wrapped_module_reached\<close>).\<close>

definition ready_module :: CO_CANmodule_t where
  "ready_module = example_module\<lparr>txArray := [sync_tx, zero_tx]\<rparr>"

definition queued_module :: CO_CANmodule_t where
  "queued_module =
     example_module\<lparr>txArray := [sync_tx\<lparr>bufferFull := True\<rparr>, zero_tx], CANtxCount := 1\<rparr>"

definition wrapped_module :: CO_CANmodule_t where
  "wrapped_module =
     example_module\<lparr>txArray := [sync_tx\<lparr>bufferFull := True\<rparr>, zero_tx], CANtxCount := 0\<rparr>"

text \<open>\<open>n\<close> consecutive calls of \<^verbatim>\<open>CO_CANsend\<close> on the same entry while no mailbox is free.\<close>

fun send_times :: "nat \<Rightarrow> CO_CANmodule_t \<Rightarrow> nat \<Rightarrow> CO_CANmodule_t" where
  "send_times 0 m buffer = m"
| "send_times (Suc n) m buffer = send_times n (fst (snd (CO_CANsend 0 HAL_OK m buffer))) buffer"

text \<open>The invariant of the transmit queue: \<^verbatim>\<open>CANtxCount\<close> is the number of transmit entries
  whose \<^verbatim>\<open>bufferFull\<close> is set.\<close>

definition txCount_matches :: "CO_CANmodule_t \<Rightarrow> bool" where
  "txCount_matches m \<longleftrightarrow> unat (CANtxCount m) = length (filter bufferFull (tx_slots m))"

section \<open>Properties\<close>

subsection \<open>The example states\<close>

lemmas example_defs =
  example_module_def ready_module_def queued_module_def wrapped_module_def
  sync_tx_def zero_tx_def zero_rx_def

lemma example_module_init:
  "CO_CANmodule_init HAL_OK (Some zero_module) (Some \<lparr>Prescaler = 0\<rparr>)
     (Some [zero_rx, zero_rx]) 2 (Some [zero_tx, zero_tx]) 2 125
   = Returned CO_ERROR_NO (Some example_module)"
  by (simp add: CO_CANmodule_init_def CANbitRate_Prescaler_def zero_module_def example_module_def
      zero_rx_def zero_tx_def)

lemma example_rx_configured:
  "CO_CANrxBufferInit HAL_OK (Some example_module) 0 0x123 0x7FF False (Some 100) (Some 200)
     = (CO_ERROR_NO, Some (example_module\<lparr>rxArray := [rx_123, zero_rx]\<rparr>))
   \<and> CO_CANrxBufferInit HAL_OK (Some (example_module\<lparr>rxArray := [rx_123, zero_rx]\<rparr>))
         1 0x120 0x7F0 False (Some 101) (Some 201)
     = (CO_ERROR_NO, Some (example_module\<lparr>rxArray := [rx_123, rx_12x]\<rparr>))"
  by (simp add: CO_CANrxBufferInit_def example_module_def rx_123_def rx_12x_def zero_rx_def Let_def)

subsection \<open>Receive dispatch\<close>

lemma rx_search_none: "\<forall>b \<in> set xs. \<not> rx_match msg b \<Longrightarrow> rx_search msg xs = None"
  by (induction xs) simp_all

lemma rx_search_first:
  "k < length xs \<Longrightarrow> rx_match msg (xs ! k) \<Longrightarrow> \<forall>j < k. \<not> rx_match msg (xs ! j)
   \<Longrightarrow> rx_search msg xs = Some (xs ! k)"
proof (induction xs arbitrary: k)
  case Nil
  then show ?case by simp
next
  case (Cons x xs)
  show ?case
  proof (cases k)
    case 0
    with Cons.prems show ?thesis by simp
  next
    case (Suc k')
    have nx: "\<not> rx_match msg x" using Cons.prems(3) Suc by auto
    have "rx_search msg xs = Some (xs ! k')"
    proof (rule Cons.IH)
      show "k' < length xs" using Cons.prems(1) Suc by simp
      show "rx_match msg (xs ! k')" using Cons.prems(2) Suc by simp
      show "\<forall>j<k'. \<not> rx_match msg (xs ! j)"
      proof (intro allI impI)
        fix j assume "j < k'"
        then have "Suc j < k" using Suc by simp
        then have "\<not> rx_match msg ((x # xs) ! Suc j)" using Cons.prems(3) by blast
        then show "\<not> rx_match msg (xs ! j)" by simp
      qed
    qed
    then show ?thesis using nx Suc by simp
  qed
qed

text \<open>Truncating the packed 32-bit value to 16 bits is what the two casts of the source do.\<close>

lemma rx_msg_trunc: "rx_msg h = ucast (push_bit 2 (rx_StdId h) OR rx_RTR h)"
  unfolding rx_msg_def by (rule bit_word_eqI) (auto simp add: bit_simps)

text \<open>An entry set up by \<^verbatim>\<open>CO_CANrxBufferInit\<close> has a handler and a context, and the RTR bit of
  its mask is set.\<close>

lemma CO_CANrxBufferInit_configured:
  assumes "CO_CANrxBufferInit configFilter (Some m) index ident mask' rtr object pFunct
             = (CO_ERROR_NO, Some m')"
    and "unat (rxSize m) \<le> length (rxArray m)"
  shows "rx_pFunct (rxArray m' ! unat index) = pFunct \<and> pFunct \<noteq> None
    \<and> rx_object (rxArray m' ! unat index) = object \<and> object \<noteq> None
    \<and> bit (rx_mask (rxArray m' ! unat index)) 1"
proof -
  have ok: "object \<noteq> None \<and> pFunct \<noteq> None \<and> index < rxSize m"
    using assms(1) by (auto simp add: CO_CANrxBufferInit_def split: if_splits)
  then have "unat index < length (rxArray m)"
    using assms(2) by (simp add: word_less_nat_alt)
  then show ?thesis
    using assms(1) ok
    by (auto simp add: CO_CANrxBufferInit_def Let_def bit_simps split: if_splits)
qed

text \<open>The guard \<^verbatim>\<open>MsgBuff->pFunct != NULL\<close>: when the first matching entry has no handler, no
  handler is called, and the entries behind it are not looked at.\<close>

lemma CO_CANinterrupt_Rx_NULL_handler:
  assumes "k < length (rx_slots m)"
    and "rx_match (rx_msg h) (rx_slots m ! k)"
    and "\<forall>j < k. \<not> rx_match (rx_msg h) (rx_slots m ! j)"
    and "rx_pFunct (rx_slots m ! k) = None"
  shows "CO_CANinterrupt_Rx h d m = []"
  using rx_search_first [OF assms(1,2,3)] assms(4) by (simp add: CO_CANinterrupt_Rx_def)

text \<open>
  Claim C1. The dispatch \<^verbatim>\<open>CO_CANinterrupt_Rx\<close> packs the frame as \<^verbatim>\<open>(StdId << 2) | RTR\<close> in
  16 bits and searches the \<^verbatim>\<open>rxSize\<close> receive entries in index order. When \<open>k\<close> is the lowest
  index whose entry satisfies \<^verbatim>\<open>((msg ^ ident) & mask) == 0\<close> and that entry has a handler, it
  calls the handler of entry \<open>k\<close>, once, with that entry's object and the received message,
  and calls no other handler, whatever the other entries hold; when no entry matches, it
  calls no handler. (The guard of the source: when entry \<open>k\<close> has no handler, nothing is
  called.)
\<close>

theorem CO_CANinterrupt_Rx_first_match:
  "rx_msg h = ucast (push_bit 2 (rx_StdId h) OR rx_RTR h)
   \<and> (\<forall>k < length (rx_slots m).
        rx_match (rx_msg h) (rx_slots m ! k) \<and> (\<forall>j < k. \<not> rx_match (rx_msg h) (rx_slots m ! j))
        \<and> rx_pFunct (rx_slots m ! k) \<noteq> None \<longrightarrow>
        CO_CANinterrupt_Rx h d m =
          [pFunct_call (the (rx_pFunct (rx_slots m ! k))) (rx_object (rx_slots m ! k))
             \<lparr>msg_ident = rx_StdId h, msg_DLC = ucast (rx_DLC h), msg_RxHeader = h, msg_data = d\<rparr>])
   \<and> (\<forall>k < length (rx_slots m).
        rx_match (rx_msg h) (rx_slots m ! k) \<and> (\<forall>j < k. \<not> rx_match (rx_msg h) (rx_slots m ! j))
        \<and> rx_pFunct (rx_slots m ! k) = None \<longrightarrow>
        CO_CANinterrupt_Rx h d m = [])
   \<and> ((\<forall>b \<in> set (rx_slots m). \<not> rx_match (rx_msg h) b) \<longrightarrow> CO_CANinterrupt_Rx h d m = [])"
proof (intro conjI allI impI)
  show "rx_msg h = ucast (push_bit 2 (rx_StdId h) OR rx_RTR h)" by (rule rx_msg_trunc)
next
  fix k
  assume k: "k < length (rx_slots m)"
    and a: "rx_match (rx_msg h) (rx_slots m ! k) \<and> (\<forall>j < k. \<not> rx_match (rx_msg h) (rx_slots m ! j))
        \<and> rx_pFunct (rx_slots m ! k) \<noteq> None"
  then have s: "rx_search (rx_msg h) (rx_slots m) = Some (rx_slots m ! k)"
    by (simp add: rx_search_first)
  obtain f where f: "rx_pFunct (rx_slots m ! k) = Some f" using a by blast
  show "CO_CANinterrupt_Rx h d m =
          [pFunct_call (the (rx_pFunct (rx_slots m ! k))) (rx_object (rx_slots m ! k))
             \<lparr>msg_ident = rx_StdId h, msg_DLC = ucast (rx_DLC h), msg_RxHeader = h, msg_data = d\<rparr>]"
    by (simp add: CO_CANinterrupt_Rx_def s f)
next
  fix k
  assume k: "k < length (rx_slots m)"
    and a: "rx_match (rx_msg h) (rx_slots m ! k) \<and> (\<forall>j < k. \<not> rx_match (rx_msg h) (rx_slots m ! j))
        \<and> rx_pFunct (rx_slots m ! k) = None"
  then have s: "rx_search (rx_msg h) (rx_slots m) = Some (rx_slots m ! k)"
    by (simp add: rx_search_first)
  show "CO_CANinterrupt_Rx h d m = []"
    using a by (simp add: CO_CANinterrupt_Rx_def s)
next
  assume "\<forall>b \<in> set (rx_slots m). \<not> rx_match (rx_msg h) b"
  then have "rx_search (rx_msg h) (rx_slots m) = None" by (rule rx_search_none)
  then show "CO_CANinterrupt_Rx h d m = []" by (simp add: CO_CANinterrupt_Rx_def)
qed

text \<open>With entry 0 configured for identifier \<^verbatim>\<open>0x123\<close> and entry 1 left as
  \<^verbatim>\<open>CO_CANmodule_init\<close> made it, the data frame \<^verbatim>\<open>0x123\<close> reaches the handler of entry 0. With
  the two entries the other way round, the unconfigured entry 0 (mask 0, no handler) matches
  first and nothing is called. With two overlapping configured entries the remote frame
  \<^verbatim>\<open>0x124\<close> matches neither.\<close>

theorem CO_CANinterrupt_Rx_first_match_witness:
  "CO_CANinterrupt_Rx \<lparr>rx_StdId = 0x123, rx_RTR = 0, rx_DLC = 2\<rparr> [1, 2]
      (example_module\<lparr>rxArray := [rx_123, zero_rx]\<rparr>)
    = [pFunct_call 200 (Some 100)
         \<lparr>msg_ident = 0x123, msg_DLC = 2,
          msg_RxHeader = \<lparr>rx_StdId = 0x123, rx_RTR = 0, rx_DLC = 2\<rparr>, msg_data = [1, 2]\<rparr>]
   \<and> CO_CANinterrupt_Rx \<lparr>rx_StdId = 0x123, rx_RTR = 0, rx_DLC = 2\<rparr> [1, 2]
      (example_module\<lparr>rxArray := [zero_rx, rx_123]\<rparr>) = []
   \<and> CO_CANinterrupt_Rx \<lparr>rx_StdId = 0x124, rx_RTR = 2, rx_DLC = 0\<rparr> []
      (example_module\<lparr>rxArray := [rx_123, rx_12x]\<rparr>) = []"
proof -
  let ?ma = "example_module\<lparr>rxArray := [rx_123, zero_rx]\<rparr>"
  let ?mb = "example_module\<lparr>rxArray := [zero_rx, rx_123]\<rparr>"
  let ?mc = "example_module\<lparr>rxArray := [rx_123, rx_12x]\<rparr>"
  let ?h1 = "\<lparr>rx_StdId = 0x123, rx_RTR = 0, rx_DLC = 2\<rparr>"
  let ?h2 = "\<lparr>rx_StdId = 0x124, rx_RTR = 2, rx_DLC = 0\<rparr>"
  have slots: "rx_slots ?ma = [rx_123, zero_rx]" "rx_slots ?mb = [zero_rx, rx_123]"
    "rx_slots ?mc = [rx_123, rx_12x]"
    by (simp_all add: rx_slots_def example_module_def)
  have hit: "rx_match (rx_msg ?h1) rx_123" "rx_match (rx_msg ?h1) zero_rx"
    by (simp_all add: rx_match_def rx_msg_def rx_123_def zero_rx_def)
  have miss: "\<not> rx_match (rx_msg ?h2) rx_123" "\<not> rx_match (rx_msg ?h2) rx_12x"
    by (simp_all add: rx_match_def rx_msg_def rx_123_def rx_12x_def)
  have handler: "rx_pFunct rx_123 \<noteq> None" "rx_pFunct zero_rx = None"
    by (simp_all add: rx_123_def zero_rx_def)
  have first: "CO_CANinterrupt_Rx ?h1 [1, 2] ?ma =
      [pFunct_call (the (rx_pFunct (rx_slots ?ma ! 0))) (rx_object (rx_slots ?ma ! 0))
         \<lparr>msg_ident = rx_StdId ?h1, msg_DLC = ucast (rx_DLC ?h1), msg_RxHeader = ?h1,
          msg_data = [1, 2]\<rparr>]"
    by (rule CO_CANinterrupt_Rx_first_match
          [THEN conjunct2, THEN conjunct1, THEN spec, THEN mp, THEN mp])
       (simp_all add: slots hit handler)
  have swallowed: "CO_CANinterrupt_Rx ?h1 [1, 2] ?mb = []"
    by (rule CO_CANinterrupt_Rx_first_match
          [THEN conjunct2, THEN conjunct2, THEN conjunct1, THEN spec [where x = 0], THEN mp, THEN mp])
       (simp_all add: slots hit handler)
  have none: "CO_CANinterrupt_Rx ?h2 [] ?mc = []"
    by (rule CO_CANinterrupt_Rx_first_match
          [THEN conjunct2, THEN conjunct2, THEN conjunct2, THEN mp])
       (simp add: slots miss)
  show ?thesis using first swallowed none unfolding slots by (simp add: rx_123_def)
qed

subsection \<open>Normal mode\<close>

text \<open>What the function returns and does to the module, for every outcome of the two HAL
  calls.\<close>

lemma CO_CANsetNormalMode_eq:
  "CO_CANsetNormalMode start notification m =
     (if start = HAL_OK \<and> notification = HAL_OK then CO_ERROR_NO else CO_ERROR_HAL,
      m\<lparr>CANnormal := True\<rparr>)"
  by (simp add: CO_CANsetNormalMode_def)

text \<open>
  Claim C6 says that \<^verbatim>\<open>CO_CANsetNormalMode\<close> sets \<^verbatim>\<open>CANnormal\<close> only if both the start of the
  peripheral and the enabling of the notifications succeed. The function assigns
  \<^verbatim>\<open>CANmodule->CANnormal = true\<close> after the two checks whatever they found: when
  \<^verbatim>\<open>HAL_CAN_Start\<close> fails, the call returns \<^verbatim>\<open>CO_ERROR_HAL\<close> and the flag is set all the same.
\<close>

theorem CO_CANsetNormalMode_start_failed:
  "CO_CANsetNormalMode HAL_ERROR HAL_OK example_module
     = (CO_ERROR_HAL, example_module\<lparr>CANnormal := True\<rparr>)
   \<and> CANnormal example_module = False"
  by (simp add: CO_CANsetNormalMode_def example_module_def)

subsection \<open>Error supervision\<close>

lemma CO_CANverifyErrors_same:
  "errOld m = code \<Longrightarrow> CO_CANverifyErrors hal isError code m = (m, [])"
  by (simp add: CO_CANverifyErrors_def)

lemma CO_CANverifyErrors_errOld:
  "errOld (fst (CO_CANverifyErrors hal isError code m)) = code"
  by (simp add: CO_CANverifyErrors_def)

lemma verifyErrors_calls_same:
  "errOld m = code \<Longrightarrow> verifyErrors_calls hal (map (\<lambda>e. (e, code)) later) m = (m, [])"
  by (induction later) (simp_all add: CO_CANverifyErrors_same)

text \<open>
  Claim C7. When the error code read from the peripheral equals \<^verbatim>\<open>errOld\<close>,
  \<^verbatim>\<open>CO_CANverifyErrors\<close> changes nothing and makes no call of \<^verbatim>\<open>CO_errorReport\<close> or
  \<^verbatim>\<open>CO_errorReset\<close>. Hence a call followed by any number of calls that read the same error
  code makes the calls of the first one only.
\<close>

theorem CO_CANverifyErrors_unchanged_code:
  "(errOld m = code \<longrightarrow> CO_CANverifyErrors hal isError code m = (m, []))
   \<and> snd (verifyErrors_calls hal ((isError, code) # map (\<lambda>e. (e, code)) later) m)
       = snd (CO_CANverifyErrors hal isError code m)"
proof (intro conjI impI)
  assume "errOld m = code"
  then show "CO_CANverifyErrors hal isError code m = (m, [])" by (rule CO_CANverifyErrors_same)
next
  obtain m1 c1 where r: "CO_CANverifyErrors hal isError code m = (m1, c1)"
    by (cases "CO_CANverifyErrors hal isError code m")
  have "errOld m1 = code" using CO_CANverifyErrors_errOld [of hal isError code m] r by simp
  then have "verifyErrors_calls hal (map (\<lambda>e. (e, code)) later) m1 = (m1, [])"
    by (rule verifyErrors_calls_same)
  then show "snd (verifyErrors_calls hal ((isError, code) # map (\<lambda>e. (e, code)) later) m)
       = snd (CO_CANverifyErrors hal isError code m)"
    using r by simp
qed

text \<open>The error code goes from 0 to bus-off and stays there for three calls: one report.\<close>

theorem CO_CANverifyErrors_unchanged_code_witness:
  "CO_CANverifyErrors stm32_hal_can_error False 4 (example_module\<lparr>errOld := 4\<rparr>)
     = (example_module\<lparr>errOld := 4\<rparr>, [])
   \<and> snd (verifyErrors_calls stm32_hal_can_error [(False, 4), (False, 4), (True, 4)] example_module)
       = [CO_errorReport CO_EM_CAN_TX_BUS_OFF CO_EMC_BUS_OFF_RECOVERED 4]"
  using CO_CANverifyErrors_unchanged_code
          [of "example_module\<lparr>errOld := 4\<rparr>" 4 stm32_hal_can_error False "[False, True]"]
        CO_CANverifyErrors_unchanged_code
          [of example_module 4 stm32_hal_can_error False "[False, True]"]
  by (simp add: CO_CANverifyErrors_def stm32_hal_can_error_def example_module_def)

text \<open>The test of the "no error" bit, whatever value the macro has: when the error code
  changes, bus-off is clear and the code has a bit in common with \<^verbatim>\<open>HAL_CAN_ERROR_NONE\<close>, the
  bus warning is reset.\<close>

lemma CO_CANverifyErrors_NONE_bit:
  "errOld m \<noteq> code \<Longrightarrow> code AND HAL_CAN_ERROR_BOF hal = 0 \<Longrightarrow> code AND HAL_CAN_ERROR_NONE hal \<noteq> 0
   \<Longrightarrow> CO_errorReset CO_EM_CAN_BUS_WARNING code \<in> set (snd (CO_CANverifyErrors hal isError code m))"
  by (simp add: CO_CANverifyErrors_def)

text \<open>With the value zero that the HAL gives the macro, no error code has such a bit: the
  function never resets the bus warning.\<close>

lemma CO_CANverifyErrors_NONE_zero:
  "HAL_CAN_ERROR_NONE hal = 0 \<Longrightarrow>
   CO_errorReset CO_EM_CAN_BUS_WARNING info \<notin> set (snd (CO_CANverifyErrors hal isError code m))"
  by (simp add: CO_CANverifyErrors_def)

text \<open>
  Claim C8 says that a standing bus warning is cleared when the error code changes to the
  "no error" indication. \<^verbatim>\<open>HAL_CAN_ERROR_NONE\<close> is the value 0, so the test
  \<^verbatim>\<open>HalCanErrorCode & HAL_CAN_ERROR_NONE\<close> is never true. When the error code goes from the
  warning bit (1) to no error (0), the function resets the bus-off condition (and, when a
  passive condition stands, that one and the overflow), but not \<^verbatim>\<open>CO_EM_CAN_BUS_WARNING\<close>.
\<close>

theorem CO_CANverifyErrors_warning_not_reset:
  "snd (CO_CANverifyErrors stm32_hal_can_error False 0 (example_module\<lparr>errOld := 1\<rparr>))
     = [CO_errorReset CO_EM_CAN_TX_BUS_OFF 0]
   \<and> snd (CO_CANverifyErrors stm32_hal_can_error True 0 (example_module\<lparr>errOld := 1\<rparr>))
     = [CO_errorReset CO_EM_CAN_TX_BUS_OFF 0,
        CO_errorReset CO_EM_CAN_TX_BUS_PASSIVE 0,
        CO_errorReset CO_EM_CAN_TX_OVERFLOW 0]"
  by (simp add: CO_CANverifyErrors_def stm32_hal_can_error_def)

text \<open>No reset of the bus warning is among the calls made at that transition.\<close>

theorem CO_CANverifyErrors_warning_not_reset_witness:
  "CO_errorReset CO_EM_CAN_BUS_WARNING 0
     \<notin> set (snd (CO_CANverifyErrors stm32_hal_can_error False 0 (example_module\<lparr>errOld := 1\<rparr>)))
   \<and> CO_errorReset CO_EM_CAN_BUS_WARNING 0
     \<notin> set (snd (CO_CANverifyErrors stm32_hal_can_error True 0 (example_module\<lparr>errOld := 1\<rparr>)))"
  using CO_CANverifyErrors_warning_not_reset by simp

subsection \<open>Initialisation\<close>

lemma CO_CANmodule_init_illegal_argument:
  "CANmodule = None \<or> rxArray' = None \<or> txArray' = None \<Longrightarrow>
   CO_CANmodule_init hal_init CANmodule HALCanObject rxArray' rxSize' txArray' txSize' CANbitRate
     = Returned CO_ERROR_ILLEGAL_ARGUMENT CANmodule"
  by (auto simp add: CO_CANmodule_init_def split: option.splits)

lemma CANbitRate_Prescaler_None:
  "CANbitRate_Prescaler r = None \<longleftrightarrow> r \<notin> {10, 20, 50, 100, 125, 250, 500, 1000}"
  by (simp add: CANbitRate_Prescaler_def)

lemma CO_CANmodule_init_illegal_baudrate:
  "CANbitRate \<notin> {10, 20, 50, 100, 125, 250, 500, 1000} \<Longrightarrow>
   \<exists>m'. CO_CANmodule_init hal_init (Some m) (Some h) (Some rx) rxSize' (Some tx) txSize' CANbitRate
     = Returned CO_ERROR_ILLEGAL_BAUDRATE (Some m')"
  using CANbitRate_Prescaler_None [of CANbitRate]
  by (simp add: CO_CANmodule_init_def Let_def)

lemma take_map_take_drop: "take n (map f (take n xs) @ drop n xs) = map f (take n xs)"
  by (cases "n \<le> length xs") simp_all

lemma CO_CANmodule_init_success:
  assumes "CO_CANmodule_init hal_init CANmodule HALCanObject rxArray' rxSize' txArray' txSize'
             CANbitRate = Returned CO_ERROR_NO r"
  shows "CANmodule \<noteq> None \<and> HALCanObject \<noteq> None \<and> rxArray' \<noteq> None \<and> txArray' \<noteq> None
   \<and> CANbitRate \<in> {10, 20, 50, 100, 125, 250, 500, 1000} \<and> hal_init = HAL_OK"
proof -
  have "CANbitRate_Prescaler CANbitRate \<noteq> None"
    using assms by (auto simp add: CO_CANmodule_init_def Let_def split: option.splits if_splits)
  then have "CANbitRate \<in> {10, 20, 50, 100, 125, 250, 500, 1000}"
    using CANbitRate_Prescaler_None [of CANbitRate] by simp
  then show ?thesis
    using assms by (auto simp add: CO_CANmodule_init_def Let_def split: option.splits if_splits)
qed

text \<open>Whenever the function gets past the argument check and returns, the entries are zeroed
  and the counters and flags reset, also when it returns an error.\<close>

lemma CO_CANmodule_init_resets:
  assumes "CO_CANmodule_init hal_init (Some m) HALCanObject (Some rx) rxSize' (Some tx) txSize'
             CANbitRate = Returned e (Some m')"
  shows "(\<forall>b \<in> set (rx_slots m'). rx_ident b = 0 \<and> rx_pFunct b = None)
   \<and> (\<forall>b \<in> set (tx_slots m'). \<not> bufferFull b)
   \<and> CANtxCount m' = 0 \<and> errOld m' = 0 \<and> \<not> CANnormal m' \<and> \<not> bufferInhibitFlag m'
   \<and> firstCANtxMessage m' \<and> rxSize m' = rxSize' \<and> txSize m' = txSize'"
proof -
  let ?rx = "map (\<lambda>b. b\<lparr>rx_ident := 0, rx_pFunct := None\<rparr>) (take (unat rxSize') rx)
               @ drop (unat rxSize') rx"
  let ?tx = "map (\<lambda>b. b\<lparr>bufferFull := False\<rparr>) (take (unat txSize') tx) @ drop (unat txSize') tx"
  have fields: "rxArray m' = ?rx \<and> txArray m' = ?tx \<and> rxSize m' = rxSize' \<and> txSize m' = txSize'
      \<and> CANtxCount m' = 0 \<and> errOld m' = 0 \<and> \<not> CANnormal m' \<and> \<not> bufferInhibitFlag m'
      \<and> firstCANtxMessage m'"
    using assms by (auto simp add: CO_CANmodule_init_def Let_def split: option.splits if_splits)
  from fields have rxa: "rxArray m' = ?rx" and rxs: "rxSize m' = rxSize'"
    and txa: "txArray m' = ?tx" and txs: "txSize m' = txSize'"
    by simp_all
  have "rx_slots m' = map (\<lambda>b. b\<lparr>rx_ident := 0, rx_pFunct := None\<rparr>) (take (unat rxSize') rx)"
    by (simp only: rx_slots_def rxa rxs take_map_take_drop)
  moreover have "tx_slots m' = map (\<lambda>b. b\<lparr>bufferFull := False\<rparr>) (take (unat txSize') tx)"
    by (simp only: tx_slots_def txa txs take_map_take_drop)
  ultimately show ?thesis using fields by auto
qed

text \<open>
  Claim C9 says that \<^verbatim>\<open>CO_CANmodule_init\<close> returns \<^verbatim>\<open>CO_ERROR_ILLEGAL_ARGUMENT\<close> when any of
  the module, the HAL handle, the receive array and the transmit array is \<^verbatim>\<open>NULL\<close>. The check
  of the arguments leaves out \<^verbatim>\<open>HALCanObject\<close>: with a \<^verbatim>\<open>NULL\<close> handle and the other arguments
  valid the function stores the handle and then writes through it instead of returning.
\<close>

theorem CO_CANmodule_init_NULL_handle:
  "CO_CANmodule_init HAL_OK (Some zero_module) None
     (Some [zero_rx, zero_rx]) 2 (Some [zero_tx, zero_tx]) 2 125 = NULL_dereference"
  by (simp add: CO_CANmodule_init_def)

subsection \<open>The transmit entries\<close>

lemma tx_slots_set_tx_slots:
  "length bufs = length (tx_slots m) \<Longrightarrow> tx_slots (set_tx_slots bufs m) = bufs"
  by (simp add: tx_slots_def set_tx_slots_def min_def split: if_splits)

lemma tx_slots_nth: "k < length (tx_slots m) \<Longrightarrow> tx_slots m ! k = txArray m ! k"
  by (simp add: tx_slots_def)

lemma set_tx_slots_id: "set_tx_slots (tx_slots m) m = m"
  by (simp add: tx_slots_def set_tx_slots_def)

lemma set_tx_slots_update:
  "k < length (tx_slots m) \<Longrightarrow>
   set_tx_slots ((tx_slots m)[k := b]) m = m\<lparr>txArray := (txArray m)[k := b]\<rparr>"
proof -
  assume k: "k < length (tx_slots m)"
  then have "k < unat (txSize m)" by (simp add: tx_slots_def)
  then have "(take (unat (txSize m)) (txArray m))[k := b] @ drop (unat (txSize m)) (txArray m)
      = (txArray m)[k := b]"
    by (metis append_take_drop_id drop_update_cancel take_update_swap)
  then show ?thesis by (simp add: tx_slots_def set_tx_slots_def)
qed

lemma filter_update_full:
  "i < length xs \<Longrightarrow> \<not> bufferFull (xs ! i) \<Longrightarrow> bufferFull b \<Longrightarrow>
   length (filter bufferFull (xs[i := b])) = Suc (length (filter bufferFull xs))"
proof (induction xs arbitrary: i)
  case Nil
  then show ?case by simp
next
  case (Cons x xs)
  then show ?case by (cases i) simp_all
qed

lemma filter_full_less:
  "i < length xs \<Longrightarrow> \<not> bufferFull (xs ! i) \<Longrightarrow> length (filter bufferFull xs) < length xs"
  by (metis length_filter_less nth_mem)

subsection \<open>CO_CANtxBufferInit\<close>

text \<open>
  Claim C10. \<^verbatim>\<open>CO_CANtxBufferInit\<close> returns \<^verbatim>\<open>NULL\<close> and changes no transmit entry when the
  module pointer is \<^verbatim>\<open>NULL\<close> or \<^verbatim>\<open>index >= txSize\<close>. For a valid index (into an array of at
  least \<^verbatim>\<open>txSize\<close> entries) it returns the entry at that index, whose identifier is
  \<^verbatim>\<open>ident << 2\<close> with the RTR bit, whose length is \<^verbatim>\<open>noOfBytes\<close>, whose \<^verbatim>\<open>bufferFull\<close> is false
  and whose \<^verbatim>\<open>syncFlag\<close> is the one requested; the data bytes, the other entries and the rest
  of the module stay as they were.
\<close>

theorem CO_CANtxBufferInit_result:
  "CO_CANtxBufferInit None index ident rtr noOfBytes sync = (None, None)
   \<and> (\<not> index < txSize m \<longrightarrow>
        CO_CANtxBufferInit (Some m) index ident rtr noOfBytes sync = (None, Some m))
   \<and> (index < txSize m \<and> unat (txSize m) \<le> length (txArray m) \<longrightarrow>
        (case CO_CANtxBufferInit (Some m) index ident rtr noOfBytes sync of
           (buffer, m') \<Rightarrow>
             buffer = Some (unat index)
             \<and> m' = Some (m\<lparr>txArray := (txArray m)[unat index :=
                        (txArray m ! unat index)
                        \<lparr>tx_ident := push_bit 2 (ucast ident) OR (if rtr then 2 else 0),
                         tx_DLC := noOfBytes,
                         bufferFull := False,
                         syncFlag := sync\<rparr>]\<rparr>)
             \<and> tx_ident (txArray (the m') ! unat index)
                 = push_bit 2 (ucast ident) OR (if rtr then 2 else 0)
             \<and> tx_DLC (txArray (the m') ! unat index) = noOfBytes
             \<and> bufferFull (txArray (the m') ! unat index) = False
             \<and> syncFlag (txArray (the m') ! unat index) = sync))"
proof (intro conjI impI)
  show "CO_CANtxBufferInit None index ident rtr noOfBytes sync = (None, None)"
    by (simp add: CO_CANtxBufferInit_def)
next
  assume "\<not> index < txSize m"
  then show "CO_CANtxBufferInit (Some m) index ident rtr noOfBytes sync = (None, Some m)"
    by (simp add: CO_CANtxBufferInit_def)
next
  assume h: "index < txSize m \<and> unat (txSize m) \<le> length (txArray m)"
  then have "unat index < unat (txSize m)" by (simp add: word_less_nat_alt)
  then have r: "unat index < length (txArray m)" using h by simp
  show "case CO_CANtxBufferInit (Some m) index ident rtr noOfBytes sync of
           (buffer, m') \<Rightarrow>
             buffer = Some (unat index)
             \<and> m' = Some (m\<lparr>txArray := (txArray m)[unat index :=
                        (txArray m ! unat index)
                        \<lparr>tx_ident := push_bit 2 (ucast ident) OR (if rtr then 2 else 0),
                         tx_DLC := noOfBytes,
                         bufferFull := False,
                         syncFlag := sync\<rparr>]\<rparr>)
             \<and> tx_ident (txArray (the m') ! unat index)
                 = push_bit 2 (ucast ident) OR (if rtr then 2 else 0)
             \<and> tx_DLC (txArray (the m') ! unat index) = noOfBytes
             \<and> bufferFull (txArray (the m') ! unat index) = False
             \<and> syncFlag (txArray (the m') ! unat index) = sync"
    using h r by (simp add: CO_CANtxBufferInit_def Let_def)
qed

text \<open>Entry 0 of the example module is set up; index 2 is outside its two entries.\<close>

theorem CO_CANtxBufferInit_result_witness:
  "CO_CANtxBufferInit (Some example_module) 0 0x181 False 8 True = (Some 0, Some ready_module)
   \<and> CO_CANtxBufferInit (Some example_module) 2 0x181 False 8 True = (None, Some example_module)"
  using CO_CANtxBufferInit_result
          [where index = 0 and ident = "0x181" and rtr = False and noOfBytes = 8 and sync = True
             and m = example_module]
        CO_CANtxBufferInit_result
          [where index = 2 and ident = "0x181" and rtr = False and noOfBytes = 8 and sync = True
             and m = example_module]
  by (simp add: CO_CANtxBufferInit_def Let_def example_defs)

subsection \<open>CO_CANsend\<close>

lemma CO_CANsend_full_again:
  "bufferFull (txArray m ! i) \<Longrightarrow>
   fst (snd (CO_CANsend 0 addTx m i)) = m\<lparr>CANtxCount := CANtxCount m + 1\<rparr>"
proof -
  assume f: "bufferFull (txArray m ! i)"
  then have "(txArray m ! i)\<lparr>bufferFull := True\<rparr> = txArray m ! i" by simp
  then show ?thesis by (simp add: CO_CANsend_def Let_def)
qed

lemma send_times_full:
  "bufferFull (txArray m ! i) \<Longrightarrow> send_times n m i = m\<lparr>CANtxCount := CANtxCount m + of_nat n\<rparr>"
proof (induction n arbitrary: m)
  case 0
  then show ?case by simp
next
  case (Suc n)
  let ?m1 = "m\<lparr>CANtxCount := CANtxCount m + 1\<rparr>"
  have "send_times (Suc n) m i = send_times n ?m1 i"
    using Suc.prems by (simp add: CO_CANsend_full_again)
  also have "\<dots> = ?m1\<lparr>CANtxCount := CANtxCount ?m1 + of_nat n\<rparr>"
    using Suc.prems by (intro Suc.IH) simp
  finally show ?case by (simp add: add.assoc add.commute)
qed

text \<open>\<^verbatim>\<open>CANtxCount\<close> is a 16-bit counter: 65535 further calls on the queued entry, none of them
  finding a free mailbox, bring it back to zero while the entry is still full.\<close>

lemma wrapped_module_reached: "send_times 65535 queued_module 0 = wrapped_module"
proof -
  have "bufferFull (txArray queued_module ! 0)" by (simp add: example_defs)
  then have "send_times 65535 queued_module 0
      = queued_module\<lparr>CANtxCount := CANtxCount queued_module + of_nat 65535\<rparr>"
    by (rule send_times_full)
  then show ?thesis by (simp add: queued_module_def wrapped_module_def)
qed

text \<open>
  Claim C2 says that \<^verbatim>\<open>CANtxCount\<close> equals the number of transmit entries whose
  \<^verbatim>\<open>bufferFull\<close> is set, and that \<^verbatim>\<open>CO_CANsend\<close> keeps it so also when called on an entry that
  is already full. On such an entry the function sets \<^verbatim>\<open>bufferFull\<close>, which is set already,
  and increments \<^verbatim>\<open>CANtxCount\<close> once more: after the module is initialised, entry 0 set up
  and sent twice while no mailbox is free, one entry is full and the counter is 2.
\<close>

theorem CO_CANsend_full_entry_count:
  "CO_CANtxBufferInit (Some example_module) 0 0x181 False 8 True = (Some 0, Some ready_module)
   \<and> CO_CANsend 0 HAL_OK ready_module 0 = (CO_ERROR_NO, queued_module, [], [])
   \<and> txCount_matches queued_module
   \<and> CO_CANsend 0 HAL_OK queued_module 0
       = (CO_ERROR_TX_OVERFLOW, queued_module\<lparr>CANtxCount := 2\<rparr>, [], [])
   \<and> \<not> txCount_matches (queued_module\<lparr>CANtxCount := 2\<rparr>)"
  by (simp add: CO_CANtxBufferInit_def CO_CANsend_def txCount_matches_def tx_slots_def Let_def
      example_defs)

text \<open>On an entry that is not full the function keeps the invariant.\<close>

lemma CO_CANsend_keeps_count:
  assumes inv: "txCount_matches m"
    and i: "i < length (tx_slots m)"
    and free: "\<not> bufferFull (txArray m ! i)"
  shows "txCount_matches (fst (snd (CO_CANsend freeLevel addTx m i)))"
proof (cases "CANtxCount m = 0 \<and> 0 < freeLevel")
  case True
  then show ?thesis using inv
    by (auto simp add: CO_CANsend_def Let_def txCount_matches_def tx_slots_def)
next
  case False
  let ?b = "(txArray m ! i)\<lparr>bufferFull := True\<rparr>"
  have res: "fst (snd (CO_CANsend freeLevel addTx m i))
      = m\<lparr>txArray := (txArray m)[i := ?b], CANtxCount := CANtxCount m + 1\<rparr>"
    using False by (auto simp add: CO_CANsend_def Let_def)
  have sl: "tx_slots (m\<lparr>txArray := (txArray m)[i := ?b], CANtxCount := CANtxCount m + 1\<rparr>)
      = (tx_slots m)[i := ?b]"
    by (simp add: tx_slots_def take_update_swap)
  have nf: "\<not> bufferFull (tx_slots m ! i)" using i free by (simp add: tx_slots_def)
  have less: "length (filter bufferFull (tx_slots m)) < length (tx_slots m)"
    using i nf by (rule filter_full_less)
  have "length (tx_slots m) \<le> unat (txSize m)" by (simp add: tx_slots_def)
  moreover have "unat (txSize m) < 65536"
    using unsigned_less [of "txSize m", where 'a = nat] by simp
  ultimately have "unat (CANtxCount m) + 1 < 65536"
    using less inv by (simp add: txCount_matches_def)
  then have "unat (CANtxCount m + 1) = unat (CANtxCount m) + 1"
    by (simp add: unat_word_ariths)
  then show ?thesis
    using inv filter_update_full [OF i nf, of ?b] by (simp add: txCount_matches_def res sl)
qed

text \<open>
  Claim C3, amended. \<^verbatim>\<open>CO_CANsend\<close> calls \<^verbatim>\<open>CO_errorReport\<close> with
  \<^verbatim>\<open>CO_EM_CAN_TX_OVERFLOW\<close> exactly when the entry is already full and
  \<^verbatim>\<open>firstCANtxMessage\<close> is false. It returns \<^verbatim>\<open>CO_ERROR_TX_OVERFLOW\<close> exactly when the entry
  is already full, unless the frame is handed to the hardware at once (\<^verbatim>\<open>CANtxCount\<close> is 0
  and a mailbox is free) and \<^verbatim>\<open>HAL_CAN_AddTxMessage\<close> fails: then it returns \<^verbatim>\<open>CO_ERROR_HAL\<close>,
  whatever the status the HAL gave and whether the entry was full or not. In every other
  call on an entry that is not full it returns \<^verbatim>\<open>CO_ERROR_NO\<close>. When the entry is already
  full, no transmit entry is changed.
\<close>

theorem CO_CANsend_overflow:
  "(case CO_CANsend freeLevel addTx m i of (err, m', reports, sent) \<Rightarrow>
      reports = (if bufferFull (txArray m ! i) \<and> \<not> firstCANtxMessage m
                 then [CO_errorReport CO_EM_CAN_TX_OVERFLOW CO_EMC_CAN_OVERRUN
                         (tx_ident (txArray m ! i))]
                 else [])
      \<and> (err = CO_ERROR_TX_OVERFLOW \<longleftrightarrow>
           bufferFull (txArray m ! i)
           \<and> \<not> (CANtxCount m = 0 \<and> 0 < freeLevel \<and> addTx \<noteq> HAL_OK))
      \<and> (CANtxCount m = 0 \<and> 0 < freeLevel \<and> addTx \<noteq> HAL_OK \<longrightarrow> err = CO_ERROR_HAL)
      \<and> err = (if CANtxCount m = 0 \<and> 0 < freeLevel \<and> addTx \<noteq> HAL_OK then CO_ERROR_HAL
                else if bufferFull (txArray m ! i) then CO_ERROR_TX_OVERFLOW
                else CO_ERROR_NO)
      \<and> (bufferFull (txArray m ! i) \<longrightarrow> txArray m' = txArray m))"
proof -
  have same: "b\<lparr>bufferFull := True\<rparr> = b" if "bufferFull b" for b :: CO_CANtx_t
    using that by simp
  show ?thesis
    by (auto simp add: CO_CANsend_def Let_def same)
qed

text \<open>The full entry of the wrapped state, a free mailbox and a failing hardware send: the
  call returns \<^verbatim>\<open>CO_ERROR_HAL\<close>, not \<^verbatim>\<open>CO_ERROR_TX_OVERFLOW\<close>.\<close>

theorem CO_CANsend_overflow_counterexample:
  "bufferFull (txArray wrapped_module ! 0)
   \<and> fst (CO_CANsend 1 HAL_ERROR wrapped_module 0) = CO_ERROR_HAL"
  by (simp add: CO_CANsend_def Let_def example_defs)

text \<open>A second send on the queued entry after the first frame has gone out: the overflow is
  reported and returned, and the entries stay as they are. A direct send that the HAL
  refuses as busy returns \<^verbatim>\<open>CO_ERROR_HAL\<close>, on an entry that is not full and on the full entry
  of the wrapped state alike.\<close>

theorem CO_CANsend_overflow_witness:
  "CO_CANsend 0 HAL_OK (queued_module\<lparr>firstCANtxMessage := False\<rparr>) 0 =
     (CO_ERROR_TX_OVERFLOW, queued_module\<lparr>firstCANtxMessage := False, CANtxCount := 2\<rparr>,
      [CO_errorReport CO_EM_CAN_TX_OVERFLOW CO_EMC_CAN_OVERRUN 0x604], [])
   \<and> fst (CO_CANsend 1 HAL_BUSY ready_module 0) = CO_ERROR_HAL
   \<and> fst (CO_CANsend 1 HAL_TIMEOUT wrapped_module 0) = CO_ERROR_HAL
   \<and> fst (CO_CANsend 1 HAL_OK ready_module 0) = CO_ERROR_NO"
proof -
  have free: "(0 :: u32) < 1" by simp
  have cnt: "CANtxCount ready_module = 0" "CANtxCount wrapped_module = 0"
    by (simp_all add: example_defs)
  have busy: "fst (CO_CANsend 1 HAL_BUSY ready_module 0) = CO_ERROR_HAL"
    using CO_CANsend_overflow [where freeLevel = 1 and addTx = HAL_BUSY
        and m = ready_module and i = 0] free cnt
    by (simp split: prod.splits)
  have timeout: "fst (CO_CANsend 1 HAL_TIMEOUT wrapped_module 0) = CO_ERROR_HAL"
    using CO_CANsend_overflow [where freeLevel = 1 and addTx = HAL_TIMEOUT
        and m = wrapped_module and i = 0] free cnt
    by (simp split: prod.splits)
  have ok: "fst (CO_CANsend 1 HAL_OK ready_module 0) = CO_ERROR_NO"
    using CO_CANsend_overflow [where freeLevel = 1 and addTx = HAL_OK
        and m = ready_module and i = 0]
    by (simp add: example_defs split: prod.splits)
  have over: "CO_CANsend 0 HAL_OK (queued_module\<lparr>firstCANtxMessage := False\<rparr>) 0 =
     (CO_ERROR_TX_OVERFLOW, queued_module\<lparr>firstCANtxMessage := False, CANtxCount := 2\<rparr>,
      [CO_errorReport CO_EM_CAN_TX_OVERFLOW CO_EMC_CAN_OVERRUN 0x604], [])"
    using CO_CANsend_overflow [where freeLevel = 0 and addTx = HAL_OK
        and m = "queued_module\<lparr>firstCANtxMessage := False\<rparr>" and i = 0]
    by (simp add: CO_CANsend_def Let_def example_defs)
  show ?thesis using over busy timeout ok by simp
qed

text \<open>While \<^verbatim>\<open>CANtxCount\<close> is not zero, as the invariant gives for a module with a full entry,
  the overflow is returned exactly on an entry that is already full.\<close>

lemma CO_CANsend_overflow_counted:
  "CANtxCount m \<noteq> 0 \<Longrightarrow>
   fst (CO_CANsend freeLevel addTx m i) = CO_ERROR_TX_OVERFLOW \<longleftrightarrow> bufferFull (txArray m ! i)"
  by (simp add: CO_CANsend_def Let_def)

subsection \<open>CO_CANclearPendingSyncPDOs\<close>

lemma clearSync_loop_eq:
  "clearSync_loop xs cnt del =
     (map (\<lambda>b. if bufferFull b \<and> syncFlag b then b\<lparr>bufferFull := False\<rparr> else b) xs,
      cnt - of_nat (length (filter (\<lambda>b. bufferFull b \<and> syncFlag b) xs)),
      if \<exists>b \<in> set xs. bufferFull b \<and> syncFlag b then 2 else del)"
  by (induction xs arbitrary: cnt del) (auto simp add: Let_def)

lemma CO_CANclearPendingSyncPDOs_eq:
  "bufferInhibitFlag (fst (CO_CANclearPendingSyncPDOs m)) = False
   \<and> (CANtxCount m \<noteq> 0 \<longrightarrow>
        tx_slots (fst (CO_CANclearPendingSyncPDOs m)) =
          map (\<lambda>b. if bufferFull b \<and> syncFlag b then b\<lparr>bufferFull := False\<rparr> else b) (tx_slots m)
        \<and> CANtxCount (fst (CO_CANclearPendingSyncPDOs m)) =
            CANtxCount m - of_nat (length (filter (\<lambda>b. bufferFull b \<and> syncFlag b) (tx_slots m))))
   \<and> (CANtxCount m = 0 \<longrightarrow>
        txArray (fst (CO_CANclearPendingSyncPDOs m)) = txArray m
        \<and> CANtxCount (fst (CO_CANclearPendingSyncPDOs m)) = 0)
   \<and> snd (CO_CANclearPendingSyncPDOs m) =
       (if CANtxCount m \<noteq> 0 \<and> (\<exists>b \<in> set (tx_slots m). bufferFull b \<and> syncFlag b)
        then [CO_errorReport CO_EM_TPDO_OUTSIDE_WINDOW CO_EMC_COMMUNICATION 2]
        else if bufferInhibitFlag m
        then [CO_errorReport CO_EM_TPDO_OUTSIDE_WINDOW CO_EMC_COMMUNICATION 1]
        else [])"
proof (cases "CANtxCount m = 0")
  case True
  then show ?thesis
    by (simp add: CO_CANclearPendingSyncPDOs_def Let_def)
next
  case False
  have len: "tx_slots (set_tx_slots (map f (tx_slots m)) m') = map f (tx_slots m)"
    if "txArray m' = txArray m" "txSize m' = txSize m" for f m'
  proof -
    have "tx_slots m' = tx_slots m" using that by (simp add: tx_slots_def)
    then show ?thesis by (simp add: tx_slots_set_tx_slots)
  qed
  show ?thesis using False
    by (simp add: CO_CANclearPendingSyncPDOs_def Let_def clearSync_loop_eq
          tx_slots_def [of "m\<lparr>bufferInhibitFlag := False\<rparr>"] len tx_slots_def [symmetric, of m])
       (auto simp add: set_tx_slots_def)
qed

text \<open>
  Claim C4, amended. \<^verbatim>\<open>CO_CANclearPendingSyncPDOs\<close> clears \<^verbatim>\<open>bufferInhibitFlag\<close>. When
  \<^verbatim>\<open>CANtxCount\<close> is not zero it clears \<^verbatim>\<open>bufferFull\<close> on every transmit entry that has
  \<^verbatim>\<open>bufferFull\<close> and \<^verbatim>\<open>syncFlag\<close> set, leaves the other entries as they are, and decrements
  \<^verbatim>\<open>CANtxCount\<close> by the number of entries so cleared; when \<^verbatim>\<open>CANtxCount\<close> is zero it does not
  look at the entries. It makes one call of \<^verbatim>\<open>CO_errorReport\<close> with
  \<^verbatim>\<open>CO_EM_TPDO_OUTSIDE_WINDOW\<close> when an entry was cleared or \<^verbatim>\<open>bufferInhibitFlag\<close> was set, and
  none otherwise; its last argument is 2 when an entry was cleared and 1 when only the flag
  was, not the number of deletions.
\<close>

theorem CO_CANclearPendingSyncPDOs_effect:
  "bufferInhibitFlag (fst (CO_CANclearPendingSyncPDOs m)) = False
   \<and> (CANtxCount m \<noteq> 0 \<longrightarrow>
        tx_slots (fst (CO_CANclearPendingSyncPDOs m)) =
          map (\<lambda>b. if bufferFull b \<and> syncFlag b then b\<lparr>bufferFull := False\<rparr> else b) (tx_slots m)
        \<and> CANtxCount (fst (CO_CANclearPendingSyncPDOs m)) =
            CANtxCount m - of_nat (length (filter (\<lambda>b. bufferFull b \<and> syncFlag b) (tx_slots m))))
   \<and> (CANtxCount m = 0 \<longrightarrow>
        txArray (fst (CO_CANclearPendingSyncPDOs m)) = txArray m
        \<and> CANtxCount (fst (CO_CANclearPendingSyncPDOs m)) = 0)
   \<and> snd (CO_CANclearPendingSyncPDOs m) =
       (if CANtxCount m \<noteq> 0 \<and> (\<exists>b \<in> set (tx_slots m). bufferFull b \<and> syncFlag b)
        then [CO_errorReport CO_EM_TPDO_OUTSIDE_WINDOW CO_EMC_COMMUNICATION 2]
        else if bufferInhibitFlag m
        then [CO_errorReport CO_EM_TPDO_OUTSIDE_WINDOW CO_EMC_COMMUNICATION 1]
        else [])"
  by (rule CO_CANclearPendingSyncPDOs_eq)

text \<open>One queued synchronous entry and no frame in a mailbox: one deletion, reported with the
  datum 2. And in the wrapped state, whose counter is zero, the queued synchronous entry is
  not cleared.\<close>

theorem CO_CANclearPendingSyncPDOs_counterexample:
  "length (filter (\<lambda>b. bufferFull b \<and> syncFlag b) (tx_slots queued_module)) = 1
   \<and> bufferInhibitFlag queued_module = False
   \<and> snd (CO_CANclearPendingSyncPDOs queued_module)
       = [CO_errorReport CO_EM_TPDO_OUTSIDE_WINDOW CO_EMC_COMMUNICATION 2]
   \<and> bufferFull (tx_slots wrapped_module ! 0) \<and> syncFlag (tx_slots wrapped_module ! 0)
   \<and> bufferFull (tx_slots (fst (CO_CANclearPendingSyncPDOs wrapped_module)) ! 0)"
  by (simp add: CO_CANclearPendingSyncPDOs_def Let_def tx_slots_def set_tx_slots_def example_defs)

text \<open>The queued synchronous entry is cleared and reported with 2; with no entry queued, the
  frame in the mailbox alone is reported with 1.\<close>

theorem CO_CANclearPendingSyncPDOs_effect_witness:
  "CO_CANclearPendingSyncPDOs (queued_module\<lparr>bufferInhibitFlag := True\<rparr>)
     = (ready_module, [CO_errorReport CO_EM_TPDO_OUTSIDE_WINDOW CO_EMC_COMMUNICATION 2])
   \<and> CO_CANclearPendingSyncPDOs (ready_module\<lparr>bufferInhibitFlag := True\<rparr>)
     = (ready_module, [CO_errorReport CO_EM_TPDO_OUTSIDE_WINDOW CO_EMC_COMMUNICATION 1])"
  using CO_CANclearPendingSyncPDOs_effect [of "queued_module\<lparr>bufferInhibitFlag := True\<rparr>"]
        CO_CANclearPendingSyncPDOs_effect [of "ready_module\<lparr>bufferInhibitFlag := True\<rparr>"]
  by (simp add: CO_CANclearPendingSyncPDOs_def Let_def tx_slots_def set_tx_slots_def example_defs)

lemma filter_clear_sync:
  "length (filter bufferFull
      (map (\<lambda>b. if bufferFull b \<and> syncFlag b then b\<lparr>bufferFull := False\<rparr> else b) xs))
     + length (filter (\<lambda>b. bufferFull b \<and> syncFlag b) xs)
   = length (filter bufferFull xs)"
  by (induction xs) auto

text \<open>The function keeps the invariant of the transmit queue.\<close>

lemma CO_CANclearPendingSyncPDOs_keeps_count:
  assumes inv: "txCount_matches m"
  shows "txCount_matches (fst (CO_CANclearPendingSyncPDOs m))"
proof (cases "CANtxCount m = 0")
  case True
  then show ?thesis using inv
    by (auto simp add: CO_CANclearPendingSyncPDOs_def Let_def txCount_matches_def tx_slots_def)
next
  case False
  let ?q = "length (filter (\<lambda>b. bufferFull b \<and> syncFlag b) (tx_slots m))"
  let ?f = "\<lambda>b. if bufferFull b \<and> syncFlag b then b\<lparr>bufferFull := False\<rparr> else b"
  from CO_CANclearPendingSyncPDOs_eq [of m] False
  have sl: "tx_slots (fst (CO_CANclearPendingSyncPDOs m)) = map ?f (tx_slots m)"
    and cn: "CANtxCount (fst (CO_CANclearPendingSyncPDOs m)) = CANtxCount m - of_nat ?q"
    by simp_all
  have q: "?q \<le> unat (CANtxCount m)"
    using inv filter_clear_sync [of "tx_slots m"] by (simp add: txCount_matches_def)
  have "unat (CANtxCount m - of_nat ?q) = unat (CANtxCount m) - ?q"
  proof -
    have u: "unat (of_nat ?q :: u16) = ?q" using q by (rule le_unat_uoi)
    then have "(of_nat ?q :: u16) \<le> CANtxCount m" using q by (simp add: word_le_nat_alt)
    then show ?thesis using u by (simp add: unat_sub)
  qed
  then show ?thesis
    using inv filter_clear_sync [of "tx_slots m"] by (simp add: txCount_matches_def sl cn)
qed

subsection \<open>CO_CANpolling_Tx\<close>

lemma polling_Tx_loop_none:
  "\<forall>b \<in> set xs. \<not> bufferFull b \<Longrightarrow> polling_Tx_loop a xs inh cnt = (False, xs, inh, cnt, [])"
  by (induction xs) simp_all

lemma polling_Tx_loop_first:
  "k < length xs \<Longrightarrow> bufferFull (xs ! k) \<Longrightarrow> \<forall>j < k. \<not> bufferFull (xs ! j) \<Longrightarrow>
   polling_Tx_loop a xs inh cnt =
     (True,
      (if a = HAL_OK then xs[k := (xs ! k)\<lparr>bufferFull := False\<rparr>] else xs),
      syncFlag (xs ! k),
      (if a = HAL_OK then cnt - 1 else cnt),
      [(prepareTxHeader (xs ! k), tx_data (xs ! k))])"
proof (induction xs arbitrary: k)
  case Nil
  then show ?case by simp
next
  case (Cons x xs)
  show ?case
  proof (cases k)
    case 0
    with Cons.prems show ?thesis by simp
  next
    case (Suc k')
    have nx: "\<not> bufferFull x" using Cons.prems(3) Suc by auto
    have later: "\<forall>j<k'. \<not> bufferFull (xs ! j)"
    proof (intro allI impI)
      fix j assume "j < k'"
      then have "Suc j < k" using Suc by simp
      then have "\<not> bufferFull ((x # xs) ! Suc j)" using Cons.prems(3) by blast
      then show "\<not> bufferFull (xs ! j)" by simp
    qed
    have "polling_Tx_loop a xs inh cnt =
     (True,
      (if a = HAL_OK then xs[k' := (xs ! k')\<lparr>bufferFull := False\<rparr>] else xs),
      syncFlag (xs ! k'),
      (if a = HAL_OK then cnt - 1 else cnt),
      [(prepareTxHeader (xs ! k'), tx_data (xs ! k'))])"
      using Cons.prems(1,2) Suc later by (intro Cons.IH) simp_all
    then show ?thesis using nx Suc by simp
  qed
qed

text \<open>Without a free mailbox the function does nothing.\<close>

lemma CO_CANpolling_Tx_no_mailbox: "CO_CANpolling_Tx 0 addTx m = (m, [])"
  by (simp add: CO_CANpolling_Tx_def)

text \<open>
  Claim C5. With a free mailbox \<^verbatim>\<open>CO_CANpolling_Tx\<close> clears \<^verbatim>\<open>firstCANtxMessage\<close>. When
  \<^verbatim>\<open>CANtxCount\<close> is zero or no transmit entry is full, it hands nothing to the hardware,
  leaves \<^verbatim>\<open>bufferInhibitFlag\<close> cleared and \<^verbatim>\<open>CANtxCount\<close> at 0. When \<^verbatim>\<open>CANtxCount\<close> is not zero
  and \<open>k\<close> is the lowest index of a full entry, it hands that entry (its header and data) to
  the hardware and sets \<^verbatim>\<open>bufferInhibitFlag\<close> to the entry's \<^verbatim>\<open>syncFlag\<close>; when the hardware
  accepts the frame it clears the entry's \<^verbatim>\<open>bufferFull\<close> and decrements \<^verbatim>\<open>CANtxCount\<close>, and
  when the hardware refuses it the entry and the counter stay as they were.
\<close>

theorem CO_CANpolling_Tx_drain:
  assumes free: "0 < freeLevel"
  shows "firstCANtxMessage (fst (CO_CANpolling_Tx freeLevel addTx m)) = False
   \<and> (CANtxCount m = 0 \<or> (\<forall>b \<in> set (tx_slots m). \<not> bufferFull b) \<longrightarrow>
        CO_CANpolling_Tx freeLevel addTx m =
          (m\<lparr>firstCANtxMessage := False, bufferInhibitFlag := False, CANtxCount := 0\<rparr>, []))
   \<and> (\<forall>k < length (tx_slots m).
        CANtxCount m \<noteq> 0 \<and> bufferFull (txArray m ! k) \<and> (\<forall>j < k. \<not> bufferFull (txArray m ! j)) \<longrightarrow>
        CO_CANpolling_Tx freeLevel addTx m =
          (if addTx = HAL_OK
           then m\<lparr>firstCANtxMessage := False,
                  bufferInhibitFlag := syncFlag (txArray m ! k),
                  txArray := (txArray m)[k := (txArray m ! k)\<lparr>bufferFull := False\<rparr>],
                  CANtxCount := CANtxCount m - 1\<rparr>
           else m\<lparr>firstCANtxMessage := False, bufferInhibitFlag := syncFlag (txArray m ! k)\<rparr>,
           [(prepareTxHeader (txArray m ! k), tx_data (txArray m ! k))]))"
proof (intro conjI allI impI)
  show "firstCANtxMessage (fst (CO_CANpolling_Tx freeLevel addTx m)) = False"
    using free by (simp add: CO_CANpolling_Tx_def Let_def set_tx_slots_def split: prod.splits)
next
  assume a: "CANtxCount m = 0 \<or> (\<forall>b \<in> set (tx_slots m). \<not> bufferFull b)"
  show "CO_CANpolling_Tx freeLevel addTx m =
          (m\<lparr>firstCANtxMessage := False, bufferInhibitFlag := False, CANtxCount := 0\<rparr>, [])"
  proof (cases "CANtxCount m = 0")
    case True
    then show ?thesis using free by (simp add: CO_CANpolling_Tx_def Let_def)
  next
    case False
    then have nofull: "\<forall>b \<in> set (tx_slots m). \<not> bufferFull b" using a by simp
    let ?m1 = "m\<lparr>firstCANtxMessage := False, bufferInhibitFlag := False\<rparr>"
    have sl: "tx_slots ?m1 = tx_slots m" by (simp add: tx_slots_def)
    have "set_tx_slots (tx_slots m) (?m1\<lparr>bufferInhibitFlag := False, CANtxCount := CANtxCount m\<rparr>)
        = ?m1"
      by (simp add: tx_slots_def set_tx_slots_def)
    then show ?thesis using free False
      by (simp add: CO_CANpolling_Tx_def Let_def sl polling_Tx_loop_none [OF nofull]
            word_greater_zero_iff)
  qed
next
  fix k
  assume k: "k < length (tx_slots m)"
    and h: "CANtxCount m \<noteq> 0 \<and> bufferFull (txArray m ! k) \<and> (\<forall>j < k. \<not> bufferFull (txArray m ! j))"
  let ?m1 = "m\<lparr>firstCANtxMessage := False, bufferInhibitFlag := False\<rparr>"
  have sl: "tx_slots ?m1 = tx_slots m" by (simp add: tx_slots_def)
  have nk: "tx_slots m ! k = txArray m ! k" using k by (rule tx_slots_nth)
  have full: "bufferFull (tx_slots m ! k)" using h nk by simp
  have before: "\<forall>j < k. \<not> bufferFull (tx_slots m ! j)"
    using h k by (simp add: tx_slots_nth)
  note loop = polling_Tx_loop_first [OF k full before, of addTx False "CANtxCount m"]
  have upd: "set_tx_slots ((tx_slots m)[k := b]) m' = m'\<lparr>txArray := (txArray m)[k := b]\<rparr>"
    if "txArray m' = txArray m" "txSize m' = txSize m" for b m'
    using k that by (metis set_tx_slots_update tx_slots_def)
  have idm: "set_tx_slots (tx_slots m) m' = m'"
    if "txArray m' = txArray m" "txSize m' = txSize m" for m'
    using that by (metis set_tx_slots_id tx_slots_def)
  show "CO_CANpolling_Tx freeLevel addTx m =
          (if addTx = HAL_OK
           then m\<lparr>firstCANtxMessage := False,
                  bufferInhibitFlag := syncFlag (txArray m ! k),
                  txArray := (txArray m)[k := (txArray m ! k)\<lparr>bufferFull := False\<rparr>],
                  CANtxCount := CANtxCount m - 1\<rparr>
           else m\<lparr>firstCANtxMessage := False, bufferInhibitFlag := syncFlag (txArray m ! k)\<rparr>,
           [(prepareTxHeader (txArray m ! k), tx_data (txArray m ! k))])"
    using free h
    by (simp add: CO_CANpolling_Tx_def Let_def sl loop nk upd idm word_greater_zero_iff)
qed

text \<open>The queued entry 0 is handed over, and released when the hardware accepts it; a counter
  of 3 with no full entry is reset to 0.\<close>

theorem CO_CANpolling_Tx_drain_witness:
  "CO_CANpolling_Tx 1 HAL_OK queued_module
     = (ready_module\<lparr>firstCANtxMessage := False, bufferInhibitFlag := True\<rparr>,
        [(\<lparr>StdId = 0x181, ExtId = 0, RTR = 0, DLC = 8\<rparr>, [0, 0, 0, 0, 0, 0, 0, 0])])
   \<and> CO_CANpolling_Tx 1 HAL_ERROR queued_module
     = (queued_module\<lparr>firstCANtxMessage := False, bufferInhibitFlag := True\<rparr>,
        [(\<lparr>StdId = 0x181, ExtId = 0, RTR = 0, DLC = 8\<rparr>, [0, 0, 0, 0, 0, 0, 0, 0])])
   \<and> CO_CANpolling_Tx 1 HAL_OK (ready_module\<lparr>CANtxCount := 3\<rparr>)
     = (ready_module\<lparr>firstCANtxMessage := False\<rparr>, [])"
proof -
  have free: "(0 :: u32) < 1" by simp
  have slots: "tx_slots queued_module = [sync_tx\<lparr>bufferFull := True\<rparr>, zero_tx]"
    "tx_slots (ready_module\<lparr>CANtxCount := 3\<rparr>) = [sync_tx, zero_tx]"
    by (simp_all add: tx_slots_def queued_module_def ready_module_def example_module_def)
  have a: "CO_CANpolling_Tx 1 addTx queued_module =
          (if addTx = HAL_OK
           then queued_module\<lparr>firstCANtxMessage := False,
                  bufferInhibitFlag := syncFlag (txArray queued_module ! 0),
                  txArray := (txArray queued_module)
                    [0 := (txArray queued_module ! 0)\<lparr>bufferFull := False\<rparr>],
                  CANtxCount := CANtxCount queued_module - 1\<rparr>
           else queued_module\<lparr>firstCANtxMessage := False,
                  bufferInhibitFlag := syncFlag (txArray queued_module ! 0)\<rparr>,
           [(prepareTxHeader (txArray queued_module ! 0), tx_data (txArray queued_module ! 0))])"
    for addTx
    by (rule CO_CANpolling_Tx_drain
          [OF free, THEN conjunct2, THEN conjunct2, THEN spec, THEN mp, THEN mp])
       (simp_all add: slots, simp add: example_defs)
  have b: "CO_CANpolling_Tx 1 HAL_OK (ready_module\<lparr>CANtxCount := 3\<rparr>) =
          (ready_module\<lparr>CANtxCount := 3\<rparr>
             \<lparr>firstCANtxMessage := False, bufferInhibitFlag := False, CANtxCount := 0\<rparr>, [])"
    by (rule CO_CANpolling_Tx_drain [OF free, THEN conjunct2, THEN conjunct1, THEN mp])
       (simp add: slots, simp add: example_defs)
  show ?thesis
    unfolding a b by (simp add: prepareTxHeader_def example_defs)
qed

lemma polling_Tx_loop_count:
  "polling_Tx_loop a xs inh cnt = (found, bufs, inh', cnt', sent) \<Longrightarrow>
   (if found then
      (if a = HAL_OK
       then Suc (length (filter bufferFull bufs)) = length (filter bufferFull xs) \<and> cnt' = cnt - 1
       else bufs = xs \<and> cnt' = cnt) \<and> filter bufferFull xs \<noteq> []
    else bufs = xs \<and> cnt' = cnt \<and> filter bufferFull xs = [])
   \<and> length bufs = length xs"
proof (induction xs arbitrary: found bufs inh' cnt' sent)
  case Nil
  then show ?case by auto
next
  case (Cons x xs)
  show ?case
  proof (cases "bufferFull x")
    case True
    with Cons.prems show ?thesis by (auto split: if_splits)
  next
    case False
    obtain f r i c s where rec: "polling_Tx_loop a xs inh cnt = (f, r, i, c, s)"
      by (metis prod_cases5)
    from Cons.IH [OF rec] Cons.prems False rec show ?thesis
      by (auto split: if_splits)
  qed
qed

text \<open>The function keeps the invariant of the transmit queue.\<close>

lemma CO_CANpolling_Tx_keeps_count:
  assumes inv: "txCount_matches m"
  shows "txCount_matches (fst (CO_CANpolling_Tx freeLevel addTx m))"
proof (cases "0 < freeLevel \<and> CANtxCount m \<noteq> 0")
  case False
  then show ?thesis using inv
    by (auto simp add: CO_CANpolling_Tx_def Let_def txCount_matches_def tx_slots_def
          word_greater_zero_iff)
next
  case True
  let ?m1 = "m\<lparr>firstCANtxMessage := False, bufferInhibitFlag := False\<rparr>"
  let ?m2 = "\<lambda>bufs inh cnt. set_tx_slots bufs (?m1\<lparr>bufferInhibitFlag := inh, CANtxCount := cnt\<rparr>)"
  have sl: "tx_slots ?m1 = tx_slots m" by (simp add: tx_slots_def)
  obtain found bufs inh cnt sent where
    loop: "polling_Tx_loop addTx (tx_slots m) False (CANtxCount m) = (found, bufs, inh, cnt, sent)"
    by (metis prod_cases5)
  note facts = polling_Tx_loop_count [OF loop]
  have len: "length bufs = length (tx_slots m)" using facts by simp
  have res: "fst (CO_CANpolling_Tx freeLevel addTx m) =
      (if \<not> found then (?m2 bufs inh cnt)\<lparr>CANtxCount := 0\<rparr> else ?m2 bufs inh cnt)"
    using True by (simp add: CO_CANpolling_Tx_def Let_def sl loop word_greater_zero_iff)
  have slots': "tx_slots (set_tx_slots bufs m') = bufs" if "tx_slots m' = tx_slots m" for m'
    using len that by (simp add: tx_slots_set_tx_slots)
  have s1: "tx_slots (?m2 bufs inh cnt) = bufs"
    by (rule slots') (simp add: tx_slots_def)
  have s2: "tx_slots ((?m2 bufs inh cnt)\<lparr>CANtxCount := 0\<rparr>) = bufs"
    using s1 by (simp add: tx_slots_def set_tx_slots_def)
  have c1: "CANtxCount (?m2 bufs inh cnt) = cnt"
    by (simp add: set_tx_slots_def)
  show ?thesis
  proof (cases found)
    case False
    then show ?thesis using facts res s2 by (simp add: txCount_matches_def)
  next
    case found: True
    show ?thesis
    proof (cases "addTx = HAL_OK")
      case ok: True
      have "unat cnt = unat (CANtxCount m) - 1"
        using facts found ok True by (simp add: unat_minus_one)
      moreover have "length (filter bufferFull bufs) = length (filter bufferFull (tx_slots m)) - 1"
        using facts found ok by (simp split: if_splits) arith
      ultimately show ?thesis using inv res found s1 c1 by (simp add: txCount_matches_def)
    next
      case False
      then show ?thesis using facts found inv res s1 c1 by (simp add: txCount_matches_def)
    qed
  qed
qed

end
